theory Spec2Isabelle
  imports Main "HOL-Library.Word" "HOL-Library.AList"
begin

unbundle bit_operations_syntax

section \<open>JavaScript values used by the services\<close>

subsection \<open>Strings\<close>

text \<open>
  A JavaScript string is a sequence of UTF-16 code units. The model covers the strings
  whose code units are below 256 (ASCII and Latin-1): one \<^typ>\<open>char\<close> is one code unit,
  \<open>length\<close> is \<open>.length\<close>, \<open>take n\<close> is \<open>.substring(0, n)\<close> and \<open>of_char\<close> is
  \<open>.charCodeAt\<close>.
\<close>

definition toLowerCase_char :: "char \<Rightarrow> char" where
  "toLowerCase_char c =
     (let n = (of_char c :: nat)
      in if (65 \<le> n \<and> n \<le> 90) \<or> (192 \<le> n \<and> n \<le> 214) \<or> (216 \<le> n \<and> n \<le> 222)
         then char_of (n + 32) else c)"

definition toLowerCase :: "string \<Rightarrow> string" where
  "toLowerCase s = map toLowerCase_char s"

text \<open>White space and line terminators of ECMAScript that lie below 256.\<close>

definition isWhiteSpace :: "char \<Rightarrow> bool" where
  "isWhiteSpace c = ((of_char c :: nat) \<in> {9, 10, 11, 12, 13, 32, 160})"

definition trim :: "string \<Rightarrow> string" where
  "trim s = rev (dropWhile isWhiteSpace (rev (dropWhile isWhiteSpace s)))"

definition substring :: "string \<Rightarrow> nat \<Rightarrow> nat \<Rightarrow> string" where
  "substring s i j = take (max i j - min i j) (drop (min i j) s)"

text \<open>Decimal rendering of a number, as template literals and \<open>JSON.stringify\<close> do it.\<close>

function showNat :: "nat \<Rightarrow> string" where
  "showNat n = (if n < 10 then [char_of (48 + n)]
                else showNat (n div 10) @ [char_of (48 + n mod 10)])"
  by pat_completeness auto
termination
  by (relation "measure id") auto

declare showNat.simps [simp del]

definition showInt :: "int \<Rightarrow> string" where
  "showInt i = (if i < 0 then CHR ''-'' # showNat (nat (- i)) else showNat (nat i))"

subsection \<open>JSON documents and \<open>JSON.stringify\<close>\<close>

datatype json =
    JNull
  | JBool bool
  | JNum int
  | JStr string
  | JArr "json list"
  | JObj "(string \<times> json) list"

definition hex_digit :: "nat \<Rightarrow> char" where
  "hex_digit d = (if d < 10 then char_of (48 + d) else char_of (87 + d))"

text \<open>
  \<open>QuoteJSONString\<close>: the two-character escapes, \<open>\u00XX\<close> for the other control
  characters, every other code unit as it is.
\<close>

definition escape_char :: "char \<Rightarrow> string" where
  "escape_char c =
     (let n = (of_char c :: nat)
      in if n = 8 then [CHR 0x5C, CHR ''b'']
         else if n = 9 then [CHR 0x5C, CHR ''t'']
         else if n = 10 then [CHR 0x5C, CHR ''n'']
         else if n = 12 then [CHR 0x5C, CHR ''f'']
         else if n = 13 then [CHR 0x5C, CHR ''r'']
         else if n = 34 then [CHR 0x5C, CHR 0x22]
         else if n = 92 then [CHR 0x5C, CHR 0x5C]
         else if n < 32 then [CHR 0x5C, CHR ''u'', CHR ''0'', CHR ''0'',
                              hex_digit (n div 16), hex_digit (n mod 16)]
         else [c])"

definition quote :: "string \<Rightarrow> string" where
  "quote s = CHR 0x22 # concat (map escape_char s) @ [CHR 0x22]"

fun join_comma :: "string list \<Rightarrow> string" where
  "join_comma [] = []"
| "join_comma [x] = x"
| "join_comma (x # y # ys) = x @ '','' @ join_comma (y # ys)"

fun stringify :: "json \<Rightarrow> string" where
  "stringify JNull = ''null''"
| "stringify (JBool b) = (if b then ''true'' else ''false'')"
| "stringify (JNum i) = showInt i"
| "stringify (JStr s) = quote s"
| "stringify (JArr xs) = ''['' @ join_comma (map stringify xs) @ '']''"
| "stringify (JObj kvs) =
     ''{'' @ join_comma (map (\<lambda>(k, v). quote k @ '':'' @ stringify v) kvs) @ ''}''"

subsection \<open>\<open>Map\<close>: keyed entries in insertion order\<close>

text \<open>
  A JavaScript \<open>Map\<close> iterates in insertion order, \<open>set\<close> on a present key replaces the
  value in place and on an absent key appends. It is an association list with distinct
  keys.
\<close>

type_synonym ('k, 'v) jsmap = "('k \<times> 'v) list"

definition Map_ok :: "('k, 'v) jsmap \<Rightarrow> bool" where
  "Map_ok m = distinct (map fst m)"

definition Map_get :: "('k, 'v) jsmap \<Rightarrow> 'k \<Rightarrow> 'v option" where
  "Map_get m k = map_of m k"

definition Map_has :: "('k, 'v) jsmap \<Rightarrow> 'k \<Rightarrow> bool" where
  "Map_has m k = (k \<in> fst ` set m)"

definition Map_set :: "('k, 'v) jsmap \<Rightarrow> 'k \<Rightarrow> 'v \<Rightarrow> ('k, 'v) jsmap" where
  "Map_set m k v = AList.update k v m"

definition Map_delete :: "('k, 'v) jsmap \<Rightarrow> 'k \<Rightarrow> ('k, 'v) jsmap" where
  "Map_delete m k = AList.delete k m"

definition Map_values :: "('k, 'v) jsmap \<Rightarrow> 'v list" where
  "Map_values m = map snd m"

section \<open>CacheManager\<close>

record cache_entry =
  prompt :: string
  response :: string
  metadata :: json
  createdAt :: int
  expiresAt :: int
  accessCount :: nat

record cache_stats =
  hits :: nat
  misses :: nat
  evictions :: nat

record cachemanager =
  cache :: "(string, cache_entry) jsmap"
  maxSize :: int
  ttl :: int
  stats :: cache_stats

text \<open>
  \<open>constructor(maxSize = 500, ttl = 3600)\<close>: the size is given in MB. Numbers are
  integers throughout: clock readings in milliseconds, sizes in bytes, the TTL in seconds.
\<close>

definition CacheManager :: "int \<Rightarrow> int \<Rightarrow> cachemanager" where
  "CacheManager maxSizeMB ttl0 =
     \<lparr>cache = [], maxSize = maxSizeMB * 1024 * 1024, ttl = ttl0,
      stats = \<lparr>hits = 0, misses = 0, evictions = 0\<rparr>\<rparr>"

text \<open>
  \<open>_generateKey\<close>. The loop keeps \<open>hash\<close> a 32-bit integer: \<open>hash << 5\<close> and
  \<open>hash & hash\<close> both convert to int32, and the subtraction and addition between them
  are exact, so each round is the same arithmetic modulo \<open>2^32\<close>, read as a signed value
  by \<open>Math.abs\<close>.
\<close>

definition hash_step :: "32 word \<Rightarrow> char \<Rightarrow> 32 word" where
  "hash_step hash c =
     (let hash1 = (push_bit 5 hash - hash) + word_of_nat (of_char c)
      in hash1 AND hash1)"

definition hash_of :: "string \<Rightarrow> 32 word" where
  "hash_of normalized = foldl hash_step 0 normalized"

definition generateKey :: "string \<Rightarrow> string" where
  "generateKey p =
     (let normalized = trim (toLowerCase p)
      in ''cache_'' @ showNat (nat \<bar>sint (hash_of normalized)\<bar>))"

definition entry_json :: "cache_entry \<Rightarrow> json" where
  "entry_json e =
     JObj [(''prompt'', JStr (prompt e)), (''response'', JStr (response e)),
           (''metadata'', metadata e), (''createdAt'', JNum (createdAt e)),
           (''expiresAt'', JNum (expiresAt e)), (''accessCount'', JNum (int (accessCount e)))]"

definition sizeOf :: "cache_entry \<Rightarrow> nat" where
  "sizeOf obj = length (stringify (entry_json obj)) * 2"

definition getCacheSize :: "cachemanager \<Rightarrow> nat" where
  "getCacheSize cm = foldl (\<lambda>size v. size + sizeOf v) 0 (Map_values (cache cm))"

text \<open>
  \<open>_evictOldest\<close>: one pass over the entries keeps the first entry whose \<open>createdAt\<close> is
  strictly below every earlier one; \<open>if (oldestKey)\<close> skips the deletion for the empty
  key, which is falsy.
\<close>

definition oldest_step ::
  "(string \<times> cache_entry) option \<Rightarrow> string \<times> cache_entry \<Rightarrow> (string \<times> cache_entry) option" where
  "oldest_step oldest kv =
     (case oldest of
        None \<Rightarrow> Some kv
      | Some (oldestKey, o') \<Rightarrow> if createdAt (snd kv) < createdAt o' then Some kv else oldest)"

definition find_oldest :: "(string, cache_entry) jsmap \<Rightarrow> (string \<times> cache_entry) option" where
  "find_oldest m = foldl oldest_step None m"

definition evictOldest :: "cachemanager \<Rightarrow> cachemanager" where
  "evictOldest cm =
     (if length (cache cm) = 0 then cm
      else case find_oldest (cache cm) of
             None \<Rightarrow> cm
           | Some (oldestKey, oldest) \<Rightarrow>
               if oldestKey \<noteq> []
               then cm\<lparr>cache := Map_delete (cache cm) oldestKey,
                       stats := (stats cm)\<lparr>evictions := evictions (stats cm) + 1\<rparr>\<rparr>
               else cm)"

definition over_budget :: "cachemanager \<Rightarrow> bool" where
  "over_budget cm = (int (getCacheSize cm) > maxSize cm \<and> length (cache cm) > 0)"

text \<open>
  The \<open>while\<close> loop of \<open>put\<close> and \<open>setMaxSize\<close>. It ends as soon as the size is within
  the maximum or the map is empty; a run that never ends is the value \<open>None\<close>.
\<close>

partial_function (option) evict_while :: "cachemanager \<Rightarrow> cachemanager option" where
  "evict_while cm = (if over_budget cm then evict_while (evictOldest cm) else Some cm)"

definition new_entry :: "cachemanager \<Rightarrow> string \<Rightarrow> string \<Rightarrow> json \<Rightarrow> int \<Rightarrow> cache_entry" where
  "new_entry cm p r md now =
     \<lparr>prompt = substring p 0 200, response = r, metadata = md, createdAt = now,
      expiresAt = now + ttl cm * 1000, accessCount = 0\<rparr>"

text \<open>\<open>put(prompt, response, metadata)\<close> at clock reading \<open>now\<close> (\<open>Date.now()\<close>, in ms).\<close>

definition put :: "cachemanager \<Rightarrow> string \<Rightarrow> string \<Rightarrow> json \<Rightarrow> int \<Rightarrow> cachemanager option" where
  "put cm p r md now =
     (let key = generateKey p
      in case evict_while cm of
           None \<Rightarrow> None
         | Some cm1 \<Rightarrow> Some (cm1\<lparr>cache := Map_set (cache cm1) key (new_entry cm1 p r md now)\<rparr>))"

text \<open>\<open>get(prompt)\<close> at clock reading \<open>now\<close>: the returned entry and the manager after it.\<close>

definition get :: "cachemanager \<Rightarrow> string \<Rightarrow> int \<Rightarrow> cache_entry option \<times> cachemanager" where
  "get cm p now =
     (let key = generateKey p
      in case Map_get (cache cm) key of
           None \<Rightarrow> (None, cm\<lparr>stats := (stats cm)\<lparr>misses := misses (stats cm) + 1\<rparr>\<rparr>)
         | Some entry \<Rightarrow>
             if now > expiresAt entry
             then (None, cm\<lparr>cache := Map_delete (cache cm) key,
                            stats := (stats cm)\<lparr>misses := misses (stats cm) + 1\<rparr>\<rparr>)
             else (let entry1 = entry\<lparr>accessCount := accessCount entry + 1\<rparr>
                   in (Some entry1,
                       cm\<lparr>cache := Map_set (cache cm) key entry1,
                          stats := (stats cm)\<lparr>hits := hits (stats cm) + 1\<rparr>\<rparr>)))"

definition setMaxSize :: "cachemanager \<Rightarrow> int \<Rightarrow> cachemanager option" where
  "setMaxSize cm sizeInMB = evict_while (cm\<lparr>maxSize := sizeInMB * 1024 * 1024\<rparr>)"

text \<open>
  Well-formedness of the entry map: keys are distinct, as in any \<open>Map\<close>, and none is the
  empty string (every key written by \<open>put\<close> starts with \<open>cache_\<close>).
\<close>

definition cache_ok :: "cachemanager \<Rightarrow> bool" where
  "cache_ok cm = (Map_ok (cache cm) \<and> [] \<notin> fst ` set (cache cm))"

text \<open>A sequence of \<open>put\<close> calls, each with its arguments and its clock reading.\<close>

fun put_all :: "cachemanager \<Rightarrow> (string \<times> string \<times> json \<times> int) list \<Rightarrow> cachemanager option" where
  "put_all cm [] = Some cm"
| "put_all cm ((p, r, md, now) # calls) =
     (case put cm p r md now of None \<Rightarrow> None | Some cm1 \<Rightarrow> put_all cm1 calls)"

text \<open>A manager holding one entry for the prompt \<open>hello\<close>, expiring at 2000.\<close>

definition sample_entry :: cache_entry where
  "sample_entry = \<lparr>prompt = ''hello'', response = ''world'', metadata = JObj [],
                    createdAt = 1000, expiresAt = 2000, accessCount = 0\<rparr>"

definition sample_cache :: cachemanager where
  "sample_cache = (CacheManager 500 1)\<lparr>cache := [(generateKey ''hello'', sample_entry)]\<rparr>"

subsection \<open>\<open>JSON.parse\<close>\<close>

text \<open>
  The parser reads the compact texts that \<open>JSON.stringify\<close> writes: no white space
  between tokens, integers for numbers, code units below 256 in strings. The nesting
  is bounded by fuel; \<open>JSON_parse\<close> supplies more fuel than the text has characters.
  A text that is rejected is the \<open>SyntaxError\<close> of \<open>JSON.parse\<close>.
\<close>

definition is_digit :: "char \<Rightarrow> bool" where
  "is_digit c = (48 \<le> (of_char c :: nat) \<and> (of_char c :: nat) \<le> 57)"

definition digit_val :: "char \<Rightarrow> nat" where
  "digit_val c = of_char c - 48"

definition hex_val :: "char \<Rightarrow> nat option" where
  "hex_val c =
     (let n = (of_char c :: nat)
      in if 48 \<le> n \<and> n \<le> 57 then Some (n - 48)
         else if 97 \<le> n \<and> n \<le> 102 then Some (n - 87)
         else if 65 \<le> n \<and> n \<le> 70 then Some (n - 55)
         else None)"

definition unescape :: "char \<Rightarrow> char option" where
  "unescape d =
     (if d = CHR ''b'' then Some (char_of (8 :: nat))
      else if d = CHR ''t'' then Some (char_of (9 :: nat))
      else if d = CHR ''n'' then Some (char_of (10 :: nat))
      else if d = CHR ''f'' then Some (char_of (12 :: nat))
      else if d = CHR ''r'' then Some (char_of (13 :: nat))
      else if d = CHR 0x22 then Some (CHR 0x22)
      else if d = CHR 0x5C then Some (CHR 0x5C)
      else if d = CHR ''/'' then Some (CHR ''/'')
      else None)"

definition unicode_escape :: "char \<Rightarrow> char \<Rightarrow> char \<Rightarrow> char \<Rightarrow> char option" where
  "unicode_escape h1 h2 h3 h4 =
     (case (hex_val h1, hex_val h2, hex_val h3, hex_val h4) of
        (Some a, Some b, Some c, Some d) \<Rightarrow>
          if a = 0 \<and> b = 0 then Some (char_of (16 * c + d)) else None
      | _ \<Rightarrow> None)"

fun parse_string_body :: "string \<Rightarrow> (string \<times> string) option" where
  "parse_string_body [] = None"
| "parse_string_body (c # cs) =
     (if c = CHR 0x22 then Some ([], cs)
      else if c = CHR 0x5C then
        (case cs of
           [] \<Rightarrow> None
         | d # ds \<Rightarrow>
             if d = CHR ''u'' then
               (case ds of
                  h1 # h2 # h3 # h4 # r \<Rightarrow>
                    (case unicode_escape h1 h2 h3 h4 of
                       None \<Rightarrow> None
                     | Some ch \<Rightarrow>
                         (case parse_string_body r of
                            None \<Rightarrow> None
                          | Some (s, rest) \<Rightarrow> Some (ch # s, rest)))
                | _ \<Rightarrow> None)
             else
               (case unescape d of
                  None \<Rightarrow> None
                | Some ch \<Rightarrow>
                    (case parse_string_body ds of
                       None \<Rightarrow> None
                     | Some (s, rest) \<Rightarrow> Some (ch # s, rest))))
      else if (of_char c :: nat) < 32 then None
      else (case parse_string_body cs of
              None \<Rightarrow> None
            | Some (s, rest) \<Rightarrow> Some (c # s, rest)))"

definition parse_nat :: "string \<Rightarrow> (nat \<times> string) option" where
  "parse_nat s =
     (let ds = takeWhile is_digit s; rest = dropWhile is_digit s
      in if ds = [] then None
         else if hd ds = CHR ''0'' \<and> length ds > 1 then None
         else Some (foldl (\<lambda>a c. 10 * a + digit_val c) 0 ds, rest))"

definition parse_number :: "string \<Rightarrow> (json \<times> string) option" where
  "parse_number s =
     (case s of
        [] \<Rightarrow> None
      | c # cs \<Rightarrow>
          if c = CHR ''-''
          then (case parse_nat cs of None \<Rightarrow> None | Some (n, rest) \<Rightarrow> Some (JNum (- int n), rest))
          else (case parse_nat s of None \<Rightarrow> None | Some (n, rest) \<Rightarrow> Some (JNum (int n), rest)))"

fun parse_value :: "nat \<Rightarrow> string \<Rightarrow> (json \<times> string) option"
  and parse_elements :: "nat \<Rightarrow> string \<Rightarrow> (json list \<times> string) option"
  and parse_members :: "nat \<Rightarrow> string \<Rightarrow> ((string \<times> json) list \<times> string) option" where
  "parse_value 0 s = None"
| "parse_value (Suc fuel) s =
     (case s of
        [] \<Rightarrow> None
      | c # cs \<Rightarrow>
          if c = CHR ''n'' then (if take 3 cs = ''ull'' then Some (JNull, drop 3 cs) else None)
          else if c = CHR ''t'' then (if take 3 cs = ''rue'' then Some (JBool True, drop 3 cs) else None)
          else if c = CHR ''f'' then (if take 4 cs = ''alse'' then Some (JBool False, drop 4 cs) else None)
          else if c = CHR 0x22 then
            (case parse_string_body cs of None \<Rightarrow> None | Some (str, rest) \<Rightarrow> Some (JStr str, rest))
          else if c = CHR ''['' then
            (case cs of
               [] \<Rightarrow> None
             | d # ds \<Rightarrow>
                 if d = CHR '']'' then Some (JArr [], ds)
                 else (case parse_elements fuel cs of
                         None \<Rightarrow> None
                       | Some (xs, rest) \<Rightarrow> Some (JArr xs, rest)))
          else if c = CHR ''{'' then
            (case cs of
               [] \<Rightarrow> None
             | d # ds \<Rightarrow>
                 if d = CHR ''}'' then Some (JObj [], ds)
                 else (case parse_members fuel cs of
                         None \<Rightarrow> None
                       | Some (kvs, rest) \<Rightarrow> Some (JObj kvs, rest)))
          else parse_number s)"
| "parse_elements 0 s = None"
| "parse_elements (Suc fuel) s =
     (case parse_value fuel s of
        None \<Rightarrow> None
      | Some (v, rest) \<Rightarrow>
          (case rest of
             [] \<Rightarrow> None
           | d # ds \<Rightarrow>
               if d = CHR '','' then
                 (case parse_elements fuel ds of
                    None \<Rightarrow> None
                  | Some (vs, rest') \<Rightarrow> Some (v # vs, rest'))
               else if d = CHR '']'' then Some ([v], ds)
               else None))"
| "parse_members 0 s = None"
| "parse_members (Suc fuel) s =
     (case s of
        [] \<Rightarrow> None
      | q # s1 \<Rightarrow>
          if q \<noteq> CHR 0x22 then None
          else (case parse_string_body s1 of
                  None \<Rightarrow> None
                | Some (k, s2) \<Rightarrow>
                    (case s2 of
                       [] \<Rightarrow> None
                     | colon # s3 \<Rightarrow>
                         if colon \<noteq> CHR '':'' then None
                         else (case parse_value fuel s3 of
                                 None \<Rightarrow> None
                               | Some (v, rest) \<Rightarrow>
                                   (case rest of
                                      [] \<Rightarrow> None
                                    | d # ds \<Rightarrow>
                                        if d = CHR '','' then
                                          (case parse_members fuel ds of
                                             None \<Rightarrow> None
                                           | Some (kvs, rest') \<Rightarrow> Some ((k, v) # kvs, rest'))
                                        else if d = CHR ''}'' then Some ([(k, v)], ds)
                                        else None)))))"

definition JSON_parse :: "string \<Rightarrow> json option" where
  "JSON_parse s =
     (case parse_value (Suc (length s)) s of
        None \<Rightarrow> None
      | Some (v, rest) \<Rightarrow> if rest = [] then Some v else None)"

text \<open>What may follow a number in a text: not another digit.\<close>

definition ok_rest :: "string \<Rightarrow> bool" where
  "ok_rest rest = (case rest of [] \<Rightarrow> True | c # _ \<Rightarrow> \<not> is_digit c)"

section \<open>Errors, awaited requests, the clock and \<open>localStorage\<close>\<close>

datatype error = Error string | QuotaExceededError | SyntaxError

definition error_message :: "error \<Rightarrow> string" where
  "error_message e =
     (case e of
        Error m \<Rightarrow> m
      | QuotaExceededError \<Rightarrow> ''The quota has been exceeded.''
      | SyntaxError \<Rightarrow> ''Unexpected token in JSON'')"

text \<open>
  A thrown exception is \<open>Inl\<close>, a returned value is \<open>Inr\<close>. Every operation awaits at most
  one \<open>_request\<close>; how that request settles (the parsed body, or the error of a failed
  \<open>fetch\<close> or of a response that is not ok) is an argument of the operation.
\<close>

type_synonym 'a outcome = "error + 'a"

text \<open>The two readings of the clock: \<open>Date.now()\<close> and \<open>new Date().toISOString()\<close>.\<close>

record clock =
  now_ms :: int
  now_iso :: string

text \<open>
  \<open>localStorage\<close>: string items under string keys and a quota on their total length;
  \<open>setItem\<close> throws when the quota would be exceeded and then stores nothing.
\<close>

record storage =
  items :: "(string \<times> string) list"
  quota :: nat

definition storage_used :: "(string \<times> string) list \<Rightarrow> nat" where
  "storage_used its = sum_list (map (\<lambda>(k, v). length k + length v) its)"

definition getItem :: "storage \<Rightarrow> string \<Rightarrow> string option" where
  "getItem st k = map_of (items st) k"

definition setItem :: "storage \<Rightarrow> string \<Rightarrow> string \<Rightarrow> storage outcome" where
  "setItem st k v =
     (let its = AList.update k v (items st)
      in if quota st < storage_used its then Inl QuotaExceededError
         else Inr (st\<lparr>items := its\<rparr>))"

definition removeItem :: "storage \<Rightarrow> string \<Rightarrow> storage" where
  "removeItem st k = st\<lparr>items := AList.delete k (items st)\<rparr>"

section \<open>APIService\<close>

record turn =
  role :: string
  content :: string

record log_entry =
  timestamp :: int
  action :: string
  messageCount :: nat
  lastUserMessage :: string
  responseLength :: nat
  latency :: int
  isCached :: bool

record telemetry =
  totalRequests :: nat
  cacheHits :: nat
  cacheMisses :: nat
  totalLatency :: int
  requests :: "log_entry list"

record api_cache_entry =
  c_response :: string
  c_latency :: int
  c_timestamp :: int
  c_expiresAt :: int
  c_conversationLength :: nat

text \<open>
  The fields of the class, and \<open>sent\<close>: the method and endpoint of every \<open>fetch\<close> issued
  so far, oldest first.
\<close>

record apiservice =
  idToken :: "string option"
  api_cache :: "(string, api_cache_entry) jsmap"
  telemetry :: telemetry
  sent :: "(string \<times> string) list"

definition APIService :: apiservice where
  "APIService =
     \<lparr>idToken = None, api_cache = [],
      telemetry = \<lparr>totalRequests = 0, cacheHits = 0, cacheMisses = 0, totalLatency = 0,
                   requests = []\<rparr>,
      sent = []\<rparr>"

text \<open>\<open>_request\<close>: issues the \<open>fetch\<close> and returns or rethrows as the request settles.\<close>

definition request :: "apiservice \<Rightarrow> string \<Rightarrow> string \<Rightarrow> 'a outcome \<Rightarrow> 'a outcome \<times> apiservice" where
  "request api method endpoint settled = (settled, api\<lparr>sent := sent api @ [(method, endpoint)]\<rparr>)"

text \<open>
  The backward loop of \<open>_generateCacheKey\<close> and \<open>_logTelemetry\<close>: \<open>last_user_from h n\<close>
  is the loop with \<open>i = n - 1\<close> still to be looked at.
\<close>

fun last_user_from :: "turn list \<Rightarrow> nat \<Rightarrow> string" where
  "last_user_from conversationHistory 0 = []"
| "last_user_from conversationHistory (Suc i) =
     (if role (conversationHistory ! i) = ''user'' then content (conversationHistory ! i)
      else last_user_from conversationHistory i)"

definition last_user_message :: "turn list \<Rightarrow> string" where
  "last_user_message conversationHistory =
     last_user_from conversationHistory (length conversationHistory)"

definition generateCacheKey :: "turn list \<Rightarrow> string" where
  "generateCacheKey conversationHistory =
     substring (''cache_'' @ trim (toLowerCase (last_user_message conversationHistory))) 0 100"

definition isCacheExpired :: "int \<Rightarrow> api_cache_entry \<Rightarrow> bool" where
  "isCacheExpired now cacheEntry = (now > c_expiresAt cacheEntry)"

definition logTelemetry ::
  "apiservice \<Rightarrow> string \<Rightarrow> turn list \<Rightarrow> string \<Rightarrow> int \<Rightarrow> bool \<Rightarrow> int \<Rightarrow> apiservice" where
  "logTelemetry api act conversationHistory resp lat cached now =
     (let logEntry = \<lparr>timestamp = now, action = act,
                      messageCount = length conversationHistory,
                      lastUserMessage = substring (last_user_message conversationHistory) 0 100,
                      responseLength = length resp, latency = lat, isCached = cached\<rparr>;
          t = telemetry api;
          pushed = requests t @ [logEntry];
          kept = (if length pushed > 1000 then tl pushed else pushed)
      in api\<lparr>telemetry := t\<lparr>totalRequests := totalRequests t + 1,
                              totalLatency := totalLatency t + lat,
                              requests := kept\<rparr>\<rparr>)"

definition checkCache :: "apiservice \<Rightarrow> turn list \<Rightarrow> int \<Rightarrow> api_cache_entry option \<times> apiservice" where
  "checkCache api conversationHistory now =
     (let key = generateCacheKey conversationHistory;
          miss = api\<lparr>telemetry := (telemetry api)\<lparr>cacheMisses := cacheMisses (telemetry api) + 1\<rparr>\<rparr>
      in case Map_get (api_cache api) key of
           None \<Rightarrow> (None, miss)
         | Some cached \<Rightarrow>
             if \<not> isCacheExpired now cached
             then (Some cached,
                   logTelemetry
                     (api\<lparr>telemetry := (telemetry api)\<lparr>cacheHits := cacheHits (telemetry api) + 1\<rparr>\<rparr>)
                     ''CACHE_HIT'' conversationHistory (c_response cached) (c_latency cached) True now)
             else (None, miss))"

definition cacheResponse ::
  "apiservice \<Rightarrow> turn list \<Rightarrow> string \<Rightarrow> int \<Rightarrow> int \<Rightarrow> int \<Rightarrow> apiservice" where
  "cacheResponse api conversationHistory resp lat ttl0 now =
     api\<lparr>api_cache :=
           Map_set (api_cache api) (generateCacheKey conversationHistory)
             \<lparr>c_response = resp, c_latency = lat, c_timestamp = now,
              c_expiresAt = now + ttl0 * 1000,
              c_conversationLength = length conversationHistory\<rparr>\<rparr>"

text \<open>
  The body of the inference reply (\<open>isCached\<close> and \<open>tokens\<close> may be missing), the
  \<open>parameters\<close> argument as far as the service reads it, and the object handed back to
  the caller.
\<close>

record inference_reply =
  reply_response :: string
  reply_isCached :: "bool option"
  reply_tokens :: "nat option"

record parameters =
  param_ttl :: "int option"

record inference_result =
  res_response :: string
  res_latency :: int
  res_isCached :: bool
  res_tokens :: nat
  res_conversationLength :: nat

definition ttl_or_default :: "parameters \<Rightarrow> int" where
  "ttl_or_default ps = (case param_ttl ps of None \<Rightarrow> 3600 | Some t \<Rightarrow> if t = 0 then 3600 else t)"

text \<open>
  \<open>sendInferenceRequest\<close>, entered at clock reading \<open>startTime\<close>; the request settles (or
  the validation fails) at clock reading \<open>endTime\<close>. The cache lookup at its head is
  commented out in the source and so is no part of the function.
\<close>

definition sendInferenceRequest ::
  "apiservice \<Rightarrow> string \<Rightarrow> turn list \<Rightarrow> parameters \<Rightarrow> int \<Rightarrow> inference_reply outcome \<Rightarrow> int
     \<Rightarrow> inference_result outcome \<times> apiservice" where
  "sendInferenceRequest api sessionId conversationHistory ps startTime settled endTime =
     (if length conversationHistory = 0
      then (Inl (Error ''Invalid conversation history format''),
            logTelemetry api ''ERROR'' conversationHistory
              (''Error: '' @ ''Invalid conversation history format'') (endTime - startTime) False endTime)
      else case request api ''POST'' ''/inference'' settled of
             (Inl e, api1) \<Rightarrow>
               (Inl e,
                logTelemetry api1 ''ERROR'' conversationHistory
                  (''Error: '' @ error_message e) (endTime - startTime) False endTime)
           | (Inr result, api1) \<Rightarrow>
               (let lat = endTime - startTime;
                    cached = (case reply_isCached result of None \<Rightarrow> False | Some b \<Rightarrow> b);
                    api2 = cacheResponse api1 conversationHistory (reply_response result) lat
                             (ttl_or_default ps) endTime;
                    api3 = logTelemetry api2 ''INFERENCE'' conversationHistory
                             (reply_response result) lat cached endTime
                in (Inr \<lparr>res_response = reply_response result, res_latency = lat,
                          res_isCached = cached,
                          res_tokens = (case reply_tokens result of None \<Rightarrow> 0 | Some n \<Rightarrow> n),
                          res_conversationLength = length conversationHistory\<rparr>,
                    api3)))"

section \<open>Sessions\<close>

text \<open>
  A session object. \<open>messages\<close> may be missing on a session that came from the backend.
  A message is whatever the caller appends; the manager never looks inside, so it is a
  JSON document.
\<close>

record session =
  sessionId :: string
  userId :: string
  messages :: "json list option"
  s_createdAt :: string
  lastAccessedAt :: string

subsection \<open>The session endpoints of APIService\<close>

definition api_createSession ::
  "apiservice \<Rightarrow> string \<Rightarrow> session outcome \<Rightarrow> int \<Rightarrow> session outcome \<times> apiservice" where
  "api_createSession api uid settled now =
     (case request api ''POST'' ''/sessions'' settled of
        (Inl e, api1) \<Rightarrow> (Inl e, api1)
      | (Inr result, api1) \<Rightarrow>
          (Inr result, logTelemetry api1 ''CREATE_SESSION'' [] ''Session created'' 0 False now))"

definition api_getSession ::
  "apiservice \<Rightarrow> string \<Rightarrow> session option outcome \<Rightarrow> session option outcome \<times> apiservice" where
  "api_getSession api sid settled = request api ''GET'' (''/sessions/'' @ sid) settled"

text \<open>\<open>getUserSessions\<close> swallows a failed request and answers \<open>[]\<close>.\<close>

definition api_getUserSessions ::
  "apiservice \<Rightarrow> string \<Rightarrow> session list option outcome \<Rightarrow> session list \<times> apiservice" where
  "api_getUserSessions api uid settled =
     (case request api ''GET'' (''/sessions?uid='' @ uid) settled of
        (Inl e, api1) \<Rightarrow> ([], api1)
      | (Inr result, api1) \<Rightarrow> ((case result of None \<Rightarrow> [] | Some ss \<Rightarrow> ss), api1))"

definition api_getSessionMessages ::
  "apiservice \<Rightarrow> string \<Rightarrow> string \<Rightarrow> json list option outcome \<Rightarrow> json list outcome \<times> apiservice" where
  "api_getSessionMessages api uid sid settled =
     (case request api ''GET'' (''/sessions/'' @ uid @ ''/'' @ sid @ ''/messages'') settled of
        (Inl e, api1) \<Rightarrow> (Inl e, api1)
      | (Inr result, api1) \<Rightarrow> (Inr (case result of None \<Rightarrow> [] | Some ms \<Rightarrow> ms), api1))"

definition api_deleteSession ::
  "apiservice \<Rightarrow> string \<Rightarrow> string \<Rightarrow> unit outcome \<Rightarrow> int \<Rightarrow> bool outcome \<times> apiservice" where
  "api_deleteSession api uid sid settled now =
     (case request api ''DELETE'' (''/sessions/'' @ uid @ ''/'' @ sid) settled of
        (Inl e, api1) \<Rightarrow> (Inl e, api1)
      | (Inr result, api1) \<Rightarrow>
          (Inr True, logTelemetry api1 ''DELETE_SESSION'' [] ''Session deleted'' 0 False now))"

definition api_clearSessionHistory ::
  "apiservice \<Rightarrow> string \<Rightarrow> unit outcome \<Rightarrow> int \<Rightarrow> bool outcome \<times> apiservice" where
  "api_clearSessionHistory api sid settled now =
     (case request api ''POST'' (''/sessions/'' @ sid @ ''/clear'') settled of
        (Inl e, api1) \<Rightarrow> (Inl e, api1)
      | (Inr result, api1) \<Rightarrow>
          (Inr True, logTelemetry api1 ''CLEAR_HISTORY'' [] ''History cleared'' 0 False now))"

subsection \<open>Sessions as JSON documents\<close>

text \<open>
  \<open>JSON.stringify\<close> of a session writes its properties in the order of the object
  literal of \<open>createSession\<close> and leaves out a property that is \<open>undefined\<close>. Reading a
  parsed document as a session gives the same fields back; a document of another shape is
  no session, and loading it fails after the map has been cleared, as \<open>forEach\<close> on a
  value that is no array does.
\<close>

definition session_json :: "session \<Rightarrow> json" where
  "session_json s =
     JObj ([(''sessionId'', JStr (sessionId s)), (''userId'', JStr (userId s))]
           @ (case messages s of None \<Rightarrow> [] | Some ms \<Rightarrow> [(''messages'', JArr ms)])
           @ [(''createdAt'', JStr (s_createdAt s)), (''lastAccessedAt'', JStr (lastAccessedAt s))])"

definition json_session :: "json \<Rightarrow> session option" where
  "json_session j =
     (case j of
        JObj kvs \<Rightarrow>
          (case (map_of kvs ''sessionId'', map_of kvs ''userId'',
                 map_of kvs ''createdAt'', map_of kvs ''lastAccessedAt'') of
             (Some (JStr sid), Some (JStr uid), Some (JStr c), Some (JStr l)) \<Rightarrow>
               (case map_of kvs ''messages'' of
                  None \<Rightarrow>
                    Some \<lparr>sessionId = sid, userId = uid, messages = None,
                          s_createdAt = c, lastAccessedAt = l\<rparr>
                | Some (JArr ms) \<Rightarrow>
                    Some \<lparr>sessionId = sid, userId = uid, messages = Some ms,
                          s_createdAt = c, lastAccessedAt = l\<rparr>
                | Some _ \<Rightarrow> None)
           | _ \<Rightarrow> None)
      | _ \<Rightarrow> None)"

definition json_sessions :: "json \<Rightarrow> session list option" where
  "json_sessions doc = (case doc of JArr js \<Rightarrow> those (map json_session js) | _ \<Rightarrow> None)"

text \<open>\<open>sessions.forEach(session => this.sessions.set(session.sessionId, session))\<close>\<close>

definition set_all :: "(string, session) jsmap \<Rightarrow> session list \<Rightarrow> (string, session) jsmap" where
  "set_all m ss = foldl (\<lambda>m s. Map_set m (sessionId s) s) m ss"

section \<open>SessionManager, backend only (the first class of the file)\<close>

record sessionmanager_v1 =
  sessions_v1 :: "(string, session) jsmap"
  currentSessionId_v1 :: "string option"

definition SessionManager_v1 :: sessionmanager_v1 where
  "SessionManager_v1 = \<lparr>sessions_v1 = [], currentSessionId_v1 = None\<rparr>"

text \<open>
  \<open>createSession\<close>: \<open>this.sessions.clear()\<close> comes first, before the backend is called,
  and the error of a failed call is rethrown.
\<close>

definition createSession_v1 ::
  "sessionmanager_v1 \<times> apiservice \<Rightarrow> string \<Rightarrow> session outcome \<Rightarrow> int
     \<Rightarrow> session outcome \<times> sessionmanager_v1 \<times> apiservice" where
  "createSession_v1 st uid settled now =
     (let cleared = (fst st)\<lparr>sessions_v1 := []\<rparr>
      in case api_createSession (snd st) uid settled now of
           (Inl e, api1) \<Rightarrow> (Inl e, cleared, api1)
         | (Inr session, api1) \<Rightarrow>
             (Inr session,
              cleared\<lparr>sessions_v1 := Map_set (sessions_v1 cleared) (sessionId session) session\<rparr>,
              api1))"

section \<open>SessionManager, with guest mode (the second class of the file)\<close>

record sessionmanager =
  sessions :: "(string, session) jsmap"
  currentSessionId :: "string option"
  isGuestMode :: bool

text \<open>
  The manager, the APIService object it holds a reference to, and the browser's
  \<open>localStorage\<close>: the state every operation reads and writes.
\<close>

record world =
  sm :: sessionmanager
  api :: apiservice
  localStorage :: storage

definition SessionManager :: sessionmanager where
  "SessionManager = \<lparr>sessions = [], currentSessionId = None, isGuestMode = False\<rparr>"

definition with_sessions :: "world \<Rightarrow> (string, session) jsmap \<Rightarrow> world" where
  "with_sessions w m = w\<lparr>sm := (sm w)\<lparr>sessions := m\<rparr>\<rparr>"

definition loadGuestSessions :: "world \<Rightarrow> session list \<times> world" where
  "loadGuestSessions w =
     (case getItem (localStorage w) ''guestSessions'' of
        None \<Rightarrow> ([], w)
      | Some stored \<Rightarrow>
          if stored = [] then ([], w)
          else (case JSON_parse stored of
                  None \<Rightarrow> ([], w)
                | Some doc \<Rightarrow>
                    (case json_sessions doc of
                       None \<Rightarrow> ([], with_sessions w [])
                     | Some ss \<Rightarrow> (ss, with_sessions w (set_all [] ss)))))"

text \<open>\<open>_saveGuestSessions\<close>: an error of \<open>setItem\<close> is caught and logged, nothing more.\<close>

definition saveGuestSessions :: "world \<Rightarrow> world" where
  "saveGuestSessions w =
     (if \<not> isGuestMode (sm w) then w
      else case setItem (localStorage w) ''guestSessions''
                  (stringify (JArr (map session_json (Map_values (sessions (sm w)))))) of
             Inl e \<Rightarrow> w
           | Inr st \<Rightarrow> w\<lparr>localStorage := st\<rparr>)"

definition initialize ::
  "world \<Rightarrow> string \<Rightarrow> bool \<Rightarrow> session list option outcome \<Rightarrow> session list outcome \<times> world" where
  "initialize w uid isGuest settled =
     (let w1 = w\<lparr>sm := (sm w)\<lparr>isGuestMode := isGuest\<rparr>\<rparr>
      in if isGuest
         then (case loadGuestSessions w1 of (ss, w2) \<Rightarrow> (Inr ss, w2))
         else (case api_getUserSessions (api w1) uid settled of
                 (ss, api1) \<Rightarrow> (Inr ss, with_sessions (w1\<lparr>api := api1\<rparr>) (set_all [] ss))))"

definition substr :: "string \<Rightarrow> nat \<Rightarrow> nat \<Rightarrow> string" where
  "substr s start len = take len (drop start s)"

text \<open>
  \<open>createSession\<close>. \<open>rnd\<close> is \<open>Math.random().toString(36)\<close>. Nothing is cleared here; the
  new session is set into the map as it is.
\<close>

definition createSession ::
  "world \<Rightarrow> string \<Rightarrow> clock \<Rightarrow> string \<Rightarrow> session outcome \<Rightarrow> session outcome \<times> world" where
  "createSession w uid clk rnd settled =
     (if isGuestMode (sm w)
      then (let session = \<lparr>sessionId = ''guest_session_'' @ showInt (now_ms clk) @ ''_'' @ substr rnd 2 9,
                           userId = uid, messages = Some [],
                           s_createdAt = now_iso clk, lastAccessedAt = now_iso clk\<rparr>
            in (Inr session,
                saveGuestSessions
                  (with_sessions w (Map_set (sessions (sm w)) (sessionId session) session))))
      else (case api_createSession (api w) uid settled (now_ms clk) of
              (Inl e, api1) \<Rightarrow> (Inl e, w\<lparr>api := api1\<rparr>)
            | (Inr session, api1) \<Rightarrow>
                (Inr session,
                 with_sessions (w\<lparr>api := api1\<rparr>)
                   (Map_set (sessions (sm w)) (sessionId session) session))))"

definition getSession ::
  "world \<Rightarrow> string \<Rightarrow> session option outcome \<Rightarrow> session option outcome \<times> world" where
  "getSession w sid settled =
     (if Map_has (sessions (sm w)) sid then (Inr (Map_get (sessions (sm w)) sid), w)
      else if isGuestMode (sm w) then (Inr None, w)
      else (case api_getSession (api w) sid settled of
              (Inl e, api1) \<Rightarrow> (Inr None, w\<lparr>api := api1\<rparr>)
            | (Inr None, api1) \<Rightarrow> (Inr None, w\<lparr>api := api1\<rparr>)
            | (Inr (Some session), api1) \<Rightarrow>
                (Inr (Some session),
                 with_sessions (w\<lparr>api := api1\<rparr>) (Map_set (sessions (sm w)) sid session))))"

definition getAllSessions :: "world \<Rightarrow> session list" where
  "getAllSessions w = Map_values (sessions (sm w))"

definition refreshSessions ::
  "world \<Rightarrow> string \<Rightarrow> session list option outcome \<Rightarrow> session list outcome \<times> world" where
  "refreshSessions w uid settled =
     (if isGuestMode (sm w) then (Inr (getAllSessions w), w)
      else (case api_getUserSessions (api w) uid settled of
              (ss, api1) \<Rightarrow> (Inr ss, with_sessions (w\<lparr>api := api1\<rparr>) (set_all [] ss))))"


definition getMessages ::
  "world \<Rightarrow> string \<Rightarrow> string \<Rightarrow> json list option outcome \<Rightarrow> json list outcome \<times> world" where
  "getMessages w uid sid settled =
     (let found = Map_get (sessions (sm w)) sid
      in case (case found of None \<Rightarrow> None | Some session \<Rightarrow> messages session) of
           Some ms \<Rightarrow> (Inr ms, w)
         | None \<Rightarrow>
             if isGuestMode (sm w) then (Inr [], w)
             else (case api_getSessionMessages (api w) uid sid settled of
                     (Inl e, api1) \<Rightarrow> (Inr [], w\<lparr>api := api1\<rparr>)
                   | (Inr ms, api1) \<Rightarrow>
                       (Inr ms,
                        (case found of
                           None \<Rightarrow> w\<lparr>api := api1\<rparr>
                         | Some session \<Rightarrow>
                             with_sessions (w\<lparr>api := api1\<rparr>)
                               (Map_set (sessions (sm w)) sid (session\<lparr>messages := Some ms\<rparr>))))))"

text \<open>The local part of \<open>clearHistory\<close>, the same in both modes.\<close>

definition clear_local :: "world \<Rightarrow> string \<Rightarrow> clock \<Rightarrow> world option" where
  "clear_local w sid clk =
     (case Map_get (sessions (sm w)) sid of
        None \<Rightarrow> None
      | Some session \<Rightarrow>
          Some (with_sessions w
                  (Map_set (sessions (sm w)) sid
                     (session\<lparr>messages := Some [], lastAccessedAt := now_iso clk\<rparr>))))"

text \<open>
  \<open>clearHistory\<close> and \<open>deleteSession\<close>: the \<open>catch\<close> of either logs the error and returns
  \<open>false\<close>; it does not rethrow.
\<close>

definition clearHistory :: "world \<Rightarrow> string \<Rightarrow> clock \<Rightarrow> unit outcome \<Rightarrow> bool outcome \<times> world" where
  "clearHistory w sid clk settled =
     (if isGuestMode (sm w)
      then (case clear_local w sid clk of
              None \<Rightarrow> (Inr True, w)
            | Some w1 \<Rightarrow> (Inr True, saveGuestSessions w1))
      else (case api_clearSessionHistory (api w) sid settled (now_ms clk) of
              (Inl e, api1) \<Rightarrow> (Inr False, w\<lparr>api := api1\<rparr>)
            | (Inr ok, api1) \<Rightarrow>
                (case clear_local (w\<lparr>api := api1\<rparr>) sid clk of
                   None \<Rightarrow> (Inr True, w\<lparr>api := api1\<rparr>)
                 | Some w1 \<Rightarrow> (Inr True, w1))))"

definition deleteSession ::
  "world \<Rightarrow> string \<Rightarrow> string \<Rightarrow> clock \<Rightarrow> unit outcome \<Rightarrow> bool outcome \<times> world" where
  "deleteSession w uid sid clk settled =
     (if isGuestMode (sm w)
      then (Inr True, saveGuestSessions (with_sessions w (Map_delete (sessions (sm w)) sid)))
      else (case api_deleteSession (api w) uid sid settled (now_ms clk) of
              (Inl e, api1) \<Rightarrow> (Inr False, w\<lparr>api := api1\<rparr>)
            | (Inr ok, api1) \<Rightarrow>
                (Inr True, with_sessions (w\<lparr>api := api1\<rparr>) (Map_delete (sessions (sm w)) sid))))"

definition clearCache :: "world \<Rightarrow> world" where
  "clearCache w =
     (let w1 = w\<lparr>sm := (sm w)\<lparr>sessions := [], currentSessionId := None\<rparr>\<rparr>
      in if isGuestMode (sm w)
         then w1\<lparr>localStorage := removeItem (localStorage w1) ''guestSessions''\<rparr>
         else w1)"

section \<open>Sample inputs\<close>

text \<open>Two prompts of 102 and 101 characters that part ways after the 96th.\<close>

definition prompt_detail :: string where
  "prompt_detail =
     ''Please summarise the quarterly sales report for the northern region and list every open risk in detail''"

definition prompt_short :: string where
  "prompt_short =
     ''Please summarise the quarterly sales report for the northern region and list every open risk in short''"

definition user_turn :: "string \<Rightarrow> turn" where
  "user_turn text = \<lparr>role = ''user'', content = text\<rparr>"

definition assistant_turn :: "string \<Rightarrow> turn" where
  "assistant_turn text = \<lparr>role = ''assistant'', content = text\<rparr>"

text \<open>A backend reply that carries no \<open>isCached\<close> flag.\<close>

definition sample_reply :: inference_reply where
  "sample_reply =
     \<lparr>reply_response = ''AI is the study of machines that learn.'', reply_isCached = None,
      reply_tokens = Some 9\<rparr>"

definition what_is_ai :: "turn list" where
  "what_is_ai = [user_turn ''What is AI?'']"

text \<open>The service after a first \<open>sendInferenceRequest\<close> for \<open>What is AI?\<close>, answered at 1500.\<close>

definition after_first_send :: apiservice where
  "after_first_send =
     snd (sendInferenceRequest APIService ''s1'' what_is_ai \<lparr>param_ttl = None\<rparr> 1000
            (Inr sample_reply) 1500)"

text \<open>Two sessions, a clock reading, and worlds in either mode that hold the first session.\<close>

definition session_a :: session where
  "session_a =
     \<lparr>sessionId = ''sess_a'', userId = ''u1'',
      messages = Some [JObj [(''content'', JStr ''hi''), (''type'', JStr ''USER'')]],
      s_createdAt = ''2025-01-01T00:00:00.000Z'', lastAccessedAt = ''2025-01-01T00:00:00.000Z''\<rparr>"

definition session_b :: session where
  "session_b =
     \<lparr>sessionId = ''sess_b'', userId = ''u1'', messages = None,
      s_createdAt = ''2025-01-02T00:00:00.000Z'', lastAccessedAt = ''2025-01-02T00:00:00.000Z''\<rparr>"

definition clock0 :: clock where
  "clock0 = \<lparr>now_ms = 1735862400000, now_iso = ''2025-01-03T00:00:00.000Z''\<rparr>"

definition remote_world :: world where
  "remote_world =
     \<lparr>sm = \<lparr>sessions = [(''sess_a'', session_a)], currentSessionId = None, isGuestMode = False\<rparr>,
      api = APIService, localStorage = \<lparr>items = [], quota = 5242880\<rparr>\<rparr>"

definition guest_world :: world where
  "guest_world =
     \<lparr>sm = \<lparr>sessions = [(''sess_a'', session_a)], currentSessionId = None, isGuestMode = True\<rparr>,
      api = APIService, localStorage = \<lparr>items = [], quota = 5242880\<rparr>\<rparr>"

text \<open>A guest world whose storage takes nothing (a quota of 0, as in private browsing).\<close>

definition guest_world_full :: world where
  "guest_world_full =
     \<lparr>sm = \<lparr>sessions = [], currentSessionId = None, isGuestMode = True\<rparr>,
      api = APIService, localStorage = \<lparr>items = [], quota = 0\<rparr>\<rparr>"

text \<open>
  The invariant of the session map in guest mode: distinct keys, and every session
  stored under its own \<open>sessionId\<close>.
\<close>

definition sessions_ok :: "(string, session) jsmap \<Rightarrow> bool" where
  "sessions_ok m = (Map_ok m \<and> list_all (\<lambda>(k, s). k = sessionId s) m)"










section \<open>Properties of CacheManager\<close>

lemma getCacheSize_sum: "getCacheSize cm = sum_list (map (\<lambda>kv. sizeOf (snd kv)) (cache cm))"
proof -
  have "foldl (\<lambda>size v. size + sizeOf v) a vs = a + sum_list (map sizeOf vs)" for a vs
    by (induction vs arbitrary: a) auto
  then show ?thesis
    by (simp add: getCacheSize_def Map_values_def comp_def)
qed

lemma foldl_oldest_step:
  "\<exists>b. foldl oldest_step (Some a) m = Some b \<and> b \<in> insert a (set m)
       \<and> createdAt (snd b) \<le> createdAt (snd a)
       \<and> (\<forall>x\<in>set m. createdAt (snd b) \<le> createdAt (snd x))"
proof (induction m arbitrary: a)
  case Nil
  then show ?case by simp
next
  case (Cons x m)
  show ?case
  proof (cases "createdAt (snd x) < createdAt (snd a)")
    case True
    then have step: "oldest_step (Some a) x = Some x"
      by (cases a) (simp add: oldest_step_def)
    from Cons.IH [of x] obtain b where
      "foldl oldest_step (Some x) m = Some b" "b \<in> insert x (set m)"
      "createdAt (snd b) \<le> createdAt (snd x)" "\<forall>y\<in>set m. createdAt (snd b) \<le> createdAt (snd y)"
      by blast
    with True step show ?thesis by auto
  next
    case False
    then have step: "oldest_step (Some a) x = Some a"
      by (cases a) (simp add: oldest_step_def)
    from Cons.IH [of a] obtain b where
      "foldl oldest_step (Some a) m = Some b" "b \<in> insert a (set m)"
      "createdAt (snd b) \<le> createdAt (snd a)" "\<forall>y\<in>set m. createdAt (snd b) \<le> createdAt (snd y)"
      by blast
    with False step show ?thesis by auto
  qed
qed

lemma find_oldest_min:
  assumes "m \<noteq> []"
  shows "\<exists>b. find_oldest m = Some b \<and> b \<in> set m \<and> (\<forall>x\<in>set m. createdAt (snd b) \<le> createdAt (snd x))"
proof -
  from assms obtain a m' where m: "m = a # m'" by (cases m) auto
  have "oldest_step None a = Some a" by (simp add: oldest_step_def)
  with foldl_oldest_step [of a m'] m show ?thesis
    by (auto simp: find_oldest_def)
qed

lemma length_delete_distinct:
  "distinct (map fst m) \<Longrightarrow> (k, v) \<in> set m \<Longrightarrow> Suc (length (AList.delete k m)) = length m"
proof (induction m)
  case Nil
  then show ?case by simp
next
  case (Cons x m)
  show ?case
  proof (cases "fst x = k")
    case True
    with Cons.prems have "k \<notin> fst ` set m" by auto
    then have "AList.delete k m = m" by (rule AList.delete_id)
    with True show ?thesis by (cases x) simp
  next
    case False
    with Cons.prems have "(k, v) \<in> set m" by auto
    with Cons.IH Cons.prems have "Suc (length (AList.delete k m)) = length m" by simp
    with False show ?thesis by (cases x) auto
  qed
qed


lemma evictOldest_step:
  assumes "cache_ok cm" and "cache cm \<noteq> []"
  shows "\<exists>k e. (k, e) \<in> set (cache cm)
           \<and> (\<forall>x\<in>set (cache cm). createdAt e \<le> createdAt (snd x))
           \<and> evictOldest cm = cm\<lparr>cache := Map_delete (cache cm) k,
                                  stats := (stats cm)\<lparr>evictions := evictions (stats cm) + 1\<rparr>\<rparr>
           \<and> Suc (length (cache (evictOldest cm))) = length (cache cm)"
proof -
  from find_oldest_min [OF assms(2)] obtain b where
    b: "find_oldest (cache cm) = Some b" "b \<in> set (cache cm)"
       "\<forall>x\<in>set (cache cm). createdAt (snd b) \<le> createdAt (snd x)"
    by blast
  obtain k e where ke: "b = (k, e)" by (cases b)
  from b(2) ke assms(1) have "k \<noteq> []"
    by (force simp: cache_ok_def)
  with b(1) ke assms(2) have ev: "evictOldest cm = cm\<lparr>cache := Map_delete (cache cm) k,
      stats := (stats cm)\<lparr>evictions := evictions (stats cm) + 1\<rparr>\<rparr>"
    by (simp add: evictOldest_def)
  from assms(1) b(2) ke have "Suc (length (AList.delete k (cache cm))) = length (cache cm)"
    by (intro length_delete_distinct) (auto simp: cache_ok_def Map_ok_def)
  with ev have "Suc (length (cache (evictOldest cm))) = length (cache cm)"
    by (simp add: Map_delete_def)
  with b ke ev show ?thesis by auto
qed

lemma evictOldest_maxSize [simp]: "maxSize (evictOldest cm) = maxSize cm"
  by (simp add: evictOldest_def split: option.splits prod.splits)

lemma evictOldest_ttl [simp]: "ttl (evictOldest cm) = ttl cm"
  by (simp add: evictOldest_def split: option.splits prod.splits)

lemma evictOldest_subset: "set (cache (evictOldest cm)) \<subseteq> set (cache cm)"
  by (auto simp: evictOldest_def Map_delete_def AList.delete_eq split: option.splits prod.splits)

lemma evictOldest_ok: "cache_ok cm \<Longrightarrow> cache_ok (evictOldest cm)"
  using evictOldest_subset [of cm]
  by (auto simp: cache_ok_def Map_ok_def evictOldest_def Map_delete_def AList.distinct_delete
           split: option.splits prod.splits)

lemma funpow_evictOldest_maxSize [simp]: "maxSize ((evictOldest ^^ n) cm) = maxSize cm"
  by (induction n) auto

lemma funpow_evictOldest_ttl [simp]: "ttl ((evictOldest ^^ n) cm) = ttl cm"
  by (induction n) auto

lemma funpow_evictOldest_ok: "cache_ok cm \<Longrightarrow> cache_ok ((evictOldest ^^ n) cm)"
  by (induction n) (auto intro: evictOldest_ok)

lemma funpow_evictOldest_subset: "set (cache ((evictOldest ^^ n) cm)) \<subseteq> set (cache cm)"
proof (induction n)
  case 0
  then show ?case by simp
next
  case (Suc n)
  have "set (cache (evictOldest ((evictOldest ^^ n) cm))) \<subseteq> set (cache ((evictOldest ^^ n) cm))"
    by (rule evictOldest_subset)
  with Suc show ?case by auto
qed

lemma evict_while_runs:
  "cache_ok cm \<Longrightarrow>
   \<exists>n. evict_while cm = Some ((evictOldest ^^ n) cm)
      \<and> (\<forall>i<n. over_budget ((evictOldest ^^ i) cm))
      \<and> \<not> over_budget ((evictOldest ^^ n) cm)"
proof (induction "length (cache cm)" arbitrary: cm rule: less_induct)
  case less
  show ?case
  proof (cases "over_budget cm")
    case False
    then have "evict_while cm = Some ((evictOldest ^^ 0) cm)"
      by (simp add: evict_while.simps)
    with False show ?thesis by (intro exI [of _ 0]) simp
  next
    case True
    then have ne: "cache cm \<noteq> []" by (auto simp: over_budget_def)
    from evictOldest_step [OF less.prems ne]
    have shorter: "length (cache (evictOldest cm)) < length (cache cm)" by auto
    from less.hyps [OF shorter evictOldest_ok [OF less.prems]] obtain n where
      n: "evict_while (evictOldest cm) = Some ((evictOldest ^^ n) (evictOldest cm))"
         "\<forall>i<n. over_budget ((evictOldest ^^ i) (evictOldest cm))"
         "\<not> over_budget ((evictOldest ^^ n) (evictOldest cm))"
      by blast
    from True n(1) have 1: "evict_while cm = Some ((evictOldest ^^ Suc n) cm)"
      by (subst evict_while.simps) (simp add: funpow_swap1)
    have 2: "\<forall>i<Suc n. over_budget ((evictOldest ^^ i) cm)"
    proof (intro allI impI)
      fix i assume "i < Suc n"
      show "over_budget ((evictOldest ^^ i) cm)"
      proof (cases i)
        case 0
        with True show ?thesis by simp
      next
        case (Suc j)
        with \<open>i < Suc n\<close> n(2) show ?thesis by (simp add: funpow_swap1)
      qed
    qed
    from n(3) have 3: "\<not> over_budget ((evictOldest ^^ Suc n) cm)"
      by (simp add: funpow_swap1)
    from 1 2 3 show ?thesis by blast
  qed
qed

lemma cache_ok_new: "cache_ok (CacheManager m t)"
  by (simp add: cache_ok_def CacheManager_def Map_ok_def)

lemma evict_while_result:
  assumes "cache_ok cm"
  shows "\<exists>cm1. evict_while cm = Some cm1 \<and> cache_ok cm1 \<and> ttl cm1 = ttl cm \<and> maxSize cm1 = maxSize cm
           \<and> set (cache cm1) \<subseteq> set (cache cm)
           \<and> (int (getCacheSize cm1) \<le> maxSize cm \<or> cache cm1 = [])"
proof -
  from evict_while_runs [OF assms] obtain n where
    n: "evict_while cm = Some ((evictOldest ^^ n) cm)" "\<not> over_budget ((evictOldest ^^ n) cm)"
    by blast
  let ?c = "(evictOldest ^^ n) cm"
  from n(2) have b: "int (getCacheSize ?c) \<le> maxSize cm \<or> cache ?c = []"
    by (simp add: over_budget_def) linarith
  have "evict_while cm = Some ?c \<and> cache_ok ?c \<and> ttl ?c = ttl cm \<and> maxSize ?c = maxSize cm
           \<and> set (cache ?c) \<subseteq> set (cache cm)
           \<and> (int (getCacheSize ?c) \<le> maxSize cm \<or> cache ?c = [])"
    using n(1) funpow_evictOldest_ok [OF assms, of n] funpow_evictOldest_subset [of n cm] b
    by simp
  then show ?thesis by (rule exI)
qed

lemma put_result:
  assumes "cache_ok cm"
  shows "\<exists>cm1. evict_while cm = Some cm1
            \<and> put cm p r md T = Some (cm1\<lparr>cache := Map_set (cache cm1) (generateKey p) (new_entry cm p r md T)\<rparr>)"
proof -
  from evict_while_result [OF assms] obtain cm1 where
    "evict_while cm = Some cm1" "ttl cm1 = ttl cm" by blast
  then show ?thesis
    by (simp add: put_def new_entry_def)
qed

lemma Map_get_set_same: "Map_get (Map_set m k v) k = Some v"
  by (simp add: Map_get_def Map_set_def update_conv')

lemma Map_get_set_other: "k' \<noteq> k \<Longrightarrow> Map_get (Map_set m k v) k' = Map_get m k'"
  by (simp add: Map_get_def Map_set_def update_conv')

lemma Map_get_delete_same: "Map_get (Map_delete m k) k = None"
  by (simp add: Map_get_def Map_delete_def delete_conv')

lemma Map_get_delete_other: "k' \<noteq> k \<Longrightarrow> Map_get (Map_delete m k) k' = Map_get m k'"
  by (simp add: Map_get_def Map_delete_def delete_conv')

lemma Map_has_get: "Map_has m k \<longleftrightarrow> Map_get m k \<noteq> None"
  by (auto simp: Map_has_def Map_get_def map_of_eq_None_iff)

text \<open>
  Claim C3, as the code has it. An entry stored by \<open>put\<close> at clock reading \<open>T\<close> (ms) under
  a TTL of \<open>ttl\<close> seconds has \<open>expiresAt = T + ttl * 1000\<close>. \<open>get\<close> on the same prompt
  returns that entry (its \<open>accessCount\<close> raised to 1) at every probe time up to and
  including \<open>expiresAt\<close>, and returns absent at every probe time after \<open>expiresAt\<close>:
  the test in \<open>get\<close> is \<open>Date.now() > entry.expiresAt\<close>, so the interval of visibility
  is closed at its upper end. \<open>put\<close> itself returns whenever the entry map is well formed.
\<close>

theorem get_after_put:
  assumes "cache_ok cm"
  shows "\<exists>cm'. put cm p r md T = Some cm'
           \<and> (\<forall>now. (now \<le> T + ttl cm * 1000 \<longrightarrow>
                        fst (get cm' p now) = Some ((new_entry cm p r md T)\<lparr>accessCount := 1\<rparr>))
                   \<and> (T + ttl cm * 1000 < now \<longrightarrow> fst (get cm' p now) = None))"
proof -
  from put_result [OF assms, of p r md T] obtain cm1 where
    p: "put cm p r md T = Some (cm1\<lparr>cache := Map_set (cache cm1) (generateKey p) (new_entry cm p r md T)\<rparr>)"
    by blast
  let ?cm' = "cm1\<lparr>cache := Map_set (cache cm1) (generateKey p) (new_entry cm p r md T)\<rparr>"
  have "fst (get ?cm' p now) = Some ((new_entry cm p r md T)\<lparr>accessCount := 1\<rparr>)"
    if "now \<le> T + ttl cm * 1000" for now
    using that by (simp add: get_def Map_get_set_same new_entry_def Let_def)
  moreover have "fst (get ?cm' p now) = None" if "T + ttl cm * 1000 < now" for now
    using that by (simp add: get_def Map_get_set_same new_entry_def Let_def)
  ultimately have "put cm p r md T = Some ?cm'
           \<and> (\<forall>now. (now \<le> T + ttl cm * 1000 \<longrightarrow>
                        fst (get ?cm' p now) = Some ((new_entry cm p r md T)\<lparr>accessCount := 1\<rparr>))
                   \<and> (T + ttl cm * 1000 < now \<longrightarrow> fst (get ?cm' p now) = None))"
    using p by simp
  then show ?thesis by (rule exI)
qed

text \<open>The theorem at a fresh manager with a TTL of one second, one probe on each side.\<close>

theorem get_after_put_witness:
  "cache_ok (CacheManager 500 1)
   \<and> fst (get (the (put (CacheManager 500 1) ''hello'' ''world'' (JObj []) 1000000)) ''hello'' 1000999)
       = Some ((new_entry (CacheManager 500 1) ''hello'' ''world'' (JObj []) 1000000)\<lparr>accessCount := 1\<rparr>)
   \<and> fst (get (the (put (CacheManager 500 1) ''hello'' ''world'' (JObj []) 1000000)) ''hello'' 1001001)
       = None"
proof -
  have ok: "cache_ok (CacheManager 500 1)" by (rule cache_ok_new)
  have t: "ttl (CacheManager 500 1) = 1" by (simp add: CacheManager_def)
  from get_after_put [OF ok, of "''hello''" "''world''" "JObj []" 1000000] obtain cm' where
    p: "put (CacheManager 500 1) ''hello'' ''world'' (JObj []) 1000000 = Some cm'"
    and g: "\<And>now. now \<le> 1000000 + ttl (CacheManager 500 1) * 1000 \<Longrightarrow>
              fst (get cm' ''hello'' now)
              = Some ((new_entry (CacheManager 500 1) ''hello'' ''world'' (JObj []) 1000000)\<lparr>accessCount := 1\<rparr>)"
    and e: "\<And>now. 1000000 + ttl (CacheManager 500 1) * 1000 < now \<Longrightarrow> fst (get cm' ''hello'' now) = None"
    by blast
  from g [of 1000999] e [of 1001001] p ok show ?thesis
    by (simp add: t)
qed

text \<open>
  Claim C3 as stated asks for absent at every probe time \<open>\<ge> T + t\<close>. At the probe time
  \<open>T + t\<close> itself (here \<open>1000000 + 1 * 1000\<close> ms) the entry is still returned.
\<close>

theorem get_at_expiresAt_counterexample:
  "fst (get (the (put (CacheManager 500 1) ''hello'' ''world'' (JObj []) 1000000)) ''hello''
            (1000000 + 1 * 1000)) \<noteq> None"
proof -
  have "evict_while (CacheManager 500 1) = Some (CacheManager 500 1)"
    by (subst evict_while.simps) (simp add: over_budget_def CacheManager_def)
  then show ?thesis
    by (simp add: put_def get_def Map_get_set_same new_entry_def CacheManager_def Let_def)
qed

lemma generateKey_nonempty [simp]: "generateKey p \<noteq> []" "[] \<noteq> generateKey p"
  by (simp_all add: generateKey_def Let_def)

lemma Map_set_ok: "Map_ok m \<Longrightarrow> Map_ok (Map_set m k v)"
  by (simp add: Map_ok_def Map_set_def AList.distinct_update)

lemma Map_set_keys: "fst ` set (Map_set m k v) = insert k (fst ` set m)"
  by (simp add: Map_set_def AList.dom_update)

lemma sum_update_le:
  "sum_list (map f (AList.update k v m)) \<le> sum_list (map f m) + f (k, v)"
  for f :: "'a \<times> 'b \<Rightarrow> nat"
  by (induction m) auto

lemma getCacheSize_set_le:
  "getCacheSize (cm\<lparr>cache := Map_set (cache cm) k e\<rparr>) \<le> getCacheSize cm + sizeOf e"
  using sum_update_le [of "\<lambda>kv. sizeOf (snd kv)" k e "cache cm"]
  by (simp add: getCacheSize_sum Map_set_def)

lemma getCacheSize_empty: "cache cm = [] \<Longrightarrow> getCacheSize cm = 0"
  by (simp add: getCacheSize_sum)

lemma put_ok:
  assumes "cache_ok cm" and "put cm p r md T = Some cm'"
  shows "cache_ok cm' \<and> maxSize cm' = maxSize cm \<and> ttl cm' = ttl cm"
proof -
  from evict_while_result [OF assms(1)] obtain cm1 where
    c: "evict_while cm = Some cm1" "cache_ok cm1" "ttl cm1 = ttl cm" "maxSize cm1 = maxSize cm"
    by blast
  with assms(2) have "cm' = cm1\<lparr>cache := Map_set (cache cm1) (generateKey p) (new_entry cm1 p r md T)\<rparr>"
    by (simp add: put_def)
  with c show ?thesis
    by (simp add: cache_ok_def Map_set_ok Map_set_keys)
qed

lemma put_all_ok:
  "cache_ok cm \<Longrightarrow> \<exists>c. put_all cm calls = Some c \<and> cache_ok c \<and> maxSize c = maxSize cm \<and> ttl c = ttl cm"
proof (induction calls arbitrary: cm)
  case Nil
  then show ?case by simp
next
  case (Cons x calls)
  obtain p r md T where x: "x = (p, r, md, T)" by (cases x)
  from put_result [OF Cons.prems, of p r md T] obtain cm1 where
    p: "put cm p r md T = Some cm1" by blast
  from put_ok [OF Cons.prems p] have ok: "cache_ok cm1" "maxSize cm1 = maxSize cm" "ttl cm1 = ttl cm"
    by simp_all
  from Cons.IH [OF ok(1)] obtain c where
    "put_all cm1 calls = Some c" "cache_ok c" "maxSize c = maxSize cm1" "ttl c = ttl cm1" by blast
  with x p ok show ?case by simp
qed

lemma put_all_snoc:
  "put_all cm (calls @ [(p, r, md, T)]) =
     (case put_all cm calls of None \<Rightarrow> None | Some c \<Rightarrow> put c p r md T)"
proof (induction calls arbitrary: cm)
  case Nil
  then show ?case by (simp split: option.splits)
next
  case (Cons x calls)
  then show ?case by (cases x) (simp split: option.splits)
qed

text \<open>
  Claim C2, as the code has it. Take any sequence \<open>calls\<close> of \<open>put\<close> calls on a well-formed
  manager, followed by one more \<open>put\<close>. The sequence returns a manager \<open>c\<close>; the last
  \<open>put\<close> then runs \<open>_evictOldest\<close> some \<open>n\<close> times before it inserts. Each of these
  rounds starts over budget and removes exactly one entry, one whose \<open>createdAt\<close> is the
  smallest among the entries present at that moment. After the \<open>n\<close> rounds the total
  estimated size is within \<open>maxSize\<close> or the map is empty. Only then is the new entry
  written, so the size after the \<open>put\<close> is bounded by \<open>maxSize\<close> (or 0 if that is
  negative) plus the size of the entry just written, not by \<open>maxSize\<close> alone.
\<close>

theorem put_evicts_oldest_before_insert:
  assumes "cache_ok cm"
  shows "\<exists>c n. put_all cm calls = Some c \<and> cache_ok c \<and> maxSize c = maxSize cm
           \<and> (\<forall>i<n. over_budget ((evictOldest ^^ i) c)
                 \<and> (\<exists>k e. (k, e) \<in> set (cache ((evictOldest ^^ i) c))
                       \<and> (\<forall>x\<in>set (cache ((evictOldest ^^ i) c)). createdAt e \<le> createdAt (snd x))
                       \<and> cache ((evictOldest ^^ Suc i) c) = Map_delete (cache ((evictOldest ^^ i) c)) k
                       \<and> Suc (length (cache ((evictOldest ^^ Suc i) c))) = length (cache ((evictOldest ^^ i) c))))
           \<and> (int (getCacheSize ((evictOldest ^^ n) c)) \<le> maxSize cm \<or> cache ((evictOldest ^^ n) c) = [])
           \<and> put_all cm (calls @ [(p, r, md, T)]) =
               Some (((evictOldest ^^ n) c)\<lparr>cache := Map_set (cache ((evictOldest ^^ n) c)) (generateKey p)
                                                     (new_entry cm p r md T)\<rparr>)
           \<and> int (getCacheSize (the (put_all cm (calls @ [(p, r, md, T)]))))
               \<le> max 0 (maxSize cm) + int (sizeOf (new_entry cm p r md T))"
proof -
  from put_all_ok [OF assms, of calls] obtain c where
    c: "put_all cm calls = Some c" "cache_ok c" "maxSize c = maxSize cm" "ttl c = ttl cm" by blast
  from evict_while_runs [OF c(2)] obtain n where
    n: "evict_while c = Some ((evictOldest ^^ n) c)"
       "\<forall>i<n. over_budget ((evictOldest ^^ i) c)"
       "\<not> over_budget ((evictOldest ^^ n) c)" by blast
  let ?c1 = "(evictOldest ^^ n) c"
  let ?e = "new_entry cm p r md T"
  let ?c2 = "?c1\<lparr>cache := Map_set (cache ?c1) (generateKey p) ?e\<rparr>"
  have steps: "over_budget ((evictOldest ^^ i) c)
                 \<and> (\<exists>k e. (k, e) \<in> set (cache ((evictOldest ^^ i) c))
                       \<and> (\<forall>x\<in>set (cache ((evictOldest ^^ i) c)). createdAt e \<le> createdAt (snd x))
                       \<and> cache ((evictOldest ^^ Suc i) c) = Map_delete (cache ((evictOldest ^^ i) c)) k
                       \<and> Suc (length (cache ((evictOldest ^^ Suc i) c))) = length (cache ((evictOldest ^^ i) c)))"
    if "i < n" for i
  proof -
    let ?ci = "(evictOldest ^^ i) c"
    from n(2) that have ob: "over_budget ?ci" by simp
    then have ne: "cache ?ci \<noteq> []" by (auto simp: over_budget_def)
    from evictOldest_step [OF funpow_evictOldest_ok [OF c(2), of i] ne] obtain k e where
      "(k, e) \<in> set (cache ?ci)" "\<forall>x\<in>set (cache ?ci). createdAt e \<le> createdAt (snd x)"
      "evictOldest ?ci = ?ci\<lparr>cache := Map_delete (cache ?ci) k,
                           stats := (stats ?ci)\<lparr>evictions := evictions (stats ?ci) + 1\<rparr>\<rparr>"
      "Suc (length (cache (evictOldest ?ci))) = length (cache ?ci)" by blast
    then have "(k, e) \<in> set (cache ?ci) \<and> (\<forall>x\<in>set (cache ?ci). createdAt e \<le> createdAt (snd x))
        \<and> cache ((evictOldest ^^ Suc i) c) = Map_delete (cache ?ci) k
        \<and> Suc (length (cache ((evictOldest ^^ Suc i) c))) = length (cache ?ci)"
      by simp
    then have "\<exists>k e. (k, e) \<in> set (cache ?ci) \<and> (\<forall>x\<in>set (cache ?ci). createdAt e \<le> createdAt (snd x))
        \<and> cache ((evictOldest ^^ Suc i) c) = Map_delete (cache ?ci) k
        \<and> Suc (length (cache ((evictOldest ^^ Suc i) c))) = length (cache ?ci)"
      by blast
    with ob show ?thesis by simp
  qed
  from n(3) have within: "int (getCacheSize ?c1) \<le> maxSize cm \<or> cache ?c1 = []"
    by (simp add: over_budget_def c(3)) linarith
  from n(1) c(4) have "put c p r md T = Some ?c2"
    by (simp add: put_def new_entry_def)
  with c(1) have pa: "put_all cm (calls @ [(p, r, md, T)]) = Some ?c2"
    by (simp add: put_all_snoc)
  have "int (getCacheSize ?c1) \<le> max 0 (maxSize cm)"
    using within getCacheSize_empty [of ?c1] by auto
  moreover have "getCacheSize ?c2 \<le> getCacheSize ?c1 + sizeOf ?e"
    by (rule getCacheSize_set_le)
  ultimately have bound: "int (getCacheSize ?c2) \<le> max 0 (maxSize cm) + int (sizeOf ?e)"
    by linarith
  have "put_all cm calls = Some c \<and> cache_ok c \<and> maxSize c = maxSize cm
           \<and> (\<forall>i<n. over_budget ((evictOldest ^^ i) c)
                 \<and> (\<exists>k e. (k, e) \<in> set (cache ((evictOldest ^^ i) c))
                       \<and> (\<forall>x\<in>set (cache ((evictOldest ^^ i) c)). createdAt e \<le> createdAt (snd x))
                       \<and> cache ((evictOldest ^^ Suc i) c) = Map_delete (cache ((evictOldest ^^ i) c)) k
                       \<and> Suc (length (cache ((evictOldest ^^ Suc i) c))) = length (cache ((evictOldest ^^ i) c))))
           \<and> (int (getCacheSize ?c1) \<le> maxSize cm \<or> cache ?c1 = [])
           \<and> put_all cm (calls @ [(p, r, md, T)]) = Some ?c2
           \<and> int (getCacheSize (the (put_all cm (calls @ [(p, r, md, T)]))))
               \<le> max 0 (maxSize cm) + int (sizeOf ?e)"
    using c(1,2,3) steps within pa bound by (simp del: funpow.simps)
  then show ?thesis by blast
qed

lemma length_escape_char: "1 \<le> length (escape_char c)"
  by (simp add: escape_char_def Let_def)

lemma length_concat_escape: "length s \<le> length (concat (map escape_char s))"
proof (induction s)
  case Nil
  then show ?case by simp
next
  case (Cons c s)
  with length_escape_char [of c] show ?case by simp
qed

lemma length_quote: "length s + 2 \<le> length (quote s)"
  using length_concat_escape [of s] by (simp add: quote_def)

lemma sizeOf_response: "2 * length (response e) < sizeOf e"
  using length_quote [of "response e"]
  by (simp add: sizeOf_def entry_json_def)

lemma put_first:
  "put (CacheManager m t) p r md T =
     Some ((CacheManager m t)\<lparr>cache := [(generateKey p, new_entry (CacheManager m t) p r md T)]\<rparr>)"
proof -
  have "evict_while (CacheManager m t) = Some (CacheManager m t)"
    by (subst evict_while.simps) (simp add: over_budget_def CacheManager_def)
  then show ?thesis
    by (simp add: put_def Map_set_def CacheManager_def)
qed

text \<open>The theorem at a manager of maximum size 0 MB, where the second \<open>put\<close> has to evict.\<close>

theorem put_evicts_oldest_before_insert_witness:
  "cache_ok (CacheManager 0 3600)
   \<and> int (getCacheSize (the (put_all (CacheManager 0 3600)
                                ([(''a'', ''x'', JObj [], 1)] @ [(''b'', ''y'', JObj [], 2)]))))
       \<le> max 0 (maxSize (CacheManager 0 3600))
          + int (sizeOf (new_entry (CacheManager 0 3600) ''b'' ''y'' (JObj []) 2))"
proof -
  have ok: "cache_ok (CacheManager 0 3600)" by (rule cache_ok_new)
  from put_evicts_oldest_before_insert [OF ok, of "[(''a'', ''x'', JObj [], 1)]" "''b''" "''y''" "JObj []" 2] ok
  show ?thesis by blast
qed

text \<open>
  Claim C2 as stated bounds the total size after every sequence of \<open>put\<close> calls by the
  maximum. One \<open>put\<close> of a response of 524288 characters into a fresh manager of 1 MB
  (1048576 bytes) leaves an estimated size above the maximum: nothing is evicted before
  the insertion, and nothing is checked after it.
\<close>

theorem put_exceeds_maxSize_counterexample:
  "maxSize (the (put_all (CacheManager 1 3600) [(''p'', replicate 524288 CHR ''a'', JObj [], 0)]))
     < int (getCacheSize (the (put_all (CacheManager 1 3600)
                                 [(''p'', replicate 524288 CHR ''a'', JObj [], 0)])))"
proof -
  let ?r = "replicate 524288 CHR ''a''"
  let ?e = "new_entry (CacheManager 1 3600) ''p'' ?r (JObj []) 0"
  let ?c = "(CacheManager 1 3600)\<lparr>cache := [(generateKey ''p'', ?e)]\<rparr>"
  have pa: "put_all (CacheManager 1 3600) [(''p'', ?r, JObj [], 0)] = Some ?c"
    by (simp add: put_first)
  have "response ?e = ?r" by (simp add: new_entry_def)
  with sizeOf_response [of ?e] have "2 * 524288 < sizeOf ?e" by simp
  moreover have "getCacheSize ?c = sizeOf ?e" by (simp add: getCacheSize_sum)
  moreover have "maxSize ?c = 1048576" by (simp add: CacheManager_def)
  ultimately show ?thesis unfolding pa by simp
qed

text \<open>
  The three cases of \<open>get\<close>: a missing key, an expired entry (deleted from the map), a
  valid entry (returned with its \<open>accessCount\<close> raised by one).
\<close>

lemma get_counts:
  "(Map_get (cache cm) (generateKey p) = None \<longrightarrow>
      get cm p now = (None, cm\<lparr>stats := (stats cm)\<lparr>misses := misses (stats cm) + 1\<rparr>\<rparr>))
   \<and> (\<forall>e. Map_get (cache cm) (generateKey p) = Some e \<and> expiresAt e < now \<longrightarrow>
         fst (get cm p now) = None
         \<and> stats (snd (get cm p now)) = (stats cm)\<lparr>misses := misses (stats cm) + 1\<rparr>
         \<and> cache (snd (get cm p now)) = Map_delete (cache cm) (generateKey p)
         \<and> \<not> Map_has (cache (snd (get cm p now))) (generateKey p)
         \<and> (\<forall>k. k \<noteq> generateKey p \<longrightarrow>
                Map_get (cache (snd (get cm p now))) k = Map_get (cache cm) k))
   \<and> (\<forall>e. Map_get (cache cm) (generateKey p) = Some e \<and> now \<le> expiresAt e \<longrightarrow>
         fst (get cm p now) = Some (e\<lparr>accessCount := accessCount e + 1\<rparr>)
         \<and> stats (snd (get cm p now)) = (stats cm)\<lparr>hits := hits (stats cm) + 1\<rparr>
         \<and> Map_get (cache (snd (get cm p now))) (generateKey p)
             = Some (e\<lparr>accessCount := accessCount e + 1\<rparr>)
         \<and> (\<forall>k. k \<noteq> generateKey p \<longrightarrow>
                Map_get (cache (snd (get cm p now))) k = Map_get (cache cm) k))"
  by (auto simp: get_def Let_def Map_has_get Map_get_set_same Map_get_set_other
                 Map_get_delete_same Map_get_delete_other)

section \<open>\<open>JSON.parse\<close> inverts \<open>JSON.stringify\<close>\<close>

lemma char_of_eq_iff: "n < 256 \<Longrightarrow> (char_of n = c) = (n = (of_char c :: nat))"
proof
  assume "n < 256" and "char_of n = c"
  then have "(of_char (char_of n) :: nat) = of_char c" by simp
  with \<open>n < 256\<close> show "n = of_char c" by simp
next
  assume "n = (of_char c :: nat)"
  then show "char_of n = c" by simp
qed


lemma showNat_nonempty: "showNat n \<noteq> []"
  by (subst showNat.simps) simp


lemma showNat_length: "10 \<le> n \<Longrightarrow> 1 < length (showNat n)"
  using showNat_nonempty [of "n div 10"]
  by (subst showNat.simps) (simp add: Suc_le_eq)





















lemma ok_rest_simps [simp]:
  "ok_rest []" "ok_rest (CHR '','' # r)" "ok_rest (CHR '']'' # r)" "ok_rest (CHR ''}'' # r)"
  by (simp_all add: ok_rest_def is_digit_def)





section \<open>Properties of the APIService cache key and of \<open>sendInferenceRequest\<close>\<close>

lemma substring_0: "substring s 0 n = take n s"
  by (simp add: substring_def)

lemma last_user_from_append:
  "n \<le> length xs \<Longrightarrow> last_user_from (xs @ ys) n = last_user_from xs n"
  by (induction n) (simp_all add: nth_append)

lemma last_user_message_snoc:
  "last_user_message (xs @ [t]) =
     (if role t = ''user'' then content t else last_user_message xs)"
  by (simp add: last_user_message_def last_user_from_append)

lemma last_user_message_find:
  "last_user_message conv =
     (case find (\<lambda>t. role t = ''user'') (rev conv) of None \<Rightarrow> [] | Some t \<Rightarrow> content t)"
proof (induction conv rule: rev_induct)
  case Nil
  then show ?case by (simp add: last_user_message_def)
next
  case (snoc t conv)
  then show ?case by (simp add: last_user_message_snoc)
qed

lemma find_append_cases:
  "find P (xs @ ys) = (case find P xs of None \<Rightarrow> find P ys | Some x \<Rightarrow> Some x)"
  by (induction xs) simp_all

lemma find_rev_last_user:
  assumes "role u = ''user''" and "\<forall>t\<in>set post. role t \<noteq> ''user''"
  shows "find (\<lambda>t. role t = ''user'') (rev (pre @ u # post)) = Some u"
proof -
  from assms(2) have "find (\<lambda>t. role t = ''user'') (rev post) = None"
    by (simp add: find_None_iff)
  with assms(1) show ?thesis
    by (simp add: find_append_cases)
qed

lemma last_user_message_split:
  assumes "role u = ''user''" and "\<forall>t\<in>set post. role t \<noteq> ''user''"
  shows "last_user_message (pre @ u # post) = content u"
  using find_rev_last_user [OF assms, of pre] by (simp add: last_user_message_find)

lemma key_take: "take 100 (''cache_'' @ a) = ''cache_'' @ take 94 a"
  by simp

text \<open>
  Claim C10. \<open>_generateCacheKey\<close> is \<open>cache_\<close> followed by the lowercased, trimmed last
  user message, cut to 100 characters in all, so that 94 characters of the message
  remain. Two conversations get the same key exactly when their normalised last user
  messages agree on the first 94 characters: agreement beyond them is not needed, which
  is a collision class wider than "same latest user message".
\<close>
theorem generateCacheKey_prefix_collision:
  "generateCacheKey conv = take 100 (''cache_'' @ trim (toLowerCase (last_user_message conv)))
   \<and> generateCacheKey conv = ''cache_'' @ take 94 (trim (toLowerCase (last_user_message conv)))
   \<and> (take 94 (trim (toLowerCase (last_user_message c1)))
        = take 94 (trim (toLowerCase (last_user_message c2)))
       \<longrightarrow> generateCacheKey c1 = generateCacheKey c2)
   \<and> (generateCacheKey c1 = generateCacheKey c2
       \<longrightarrow> take 94 (trim (toLowerCase (last_user_message c1)))
            = take 94 (trim (toLowerCase (last_user_message c2))))"
  by (simp add: generateCacheKey_def substring_0)

lemma toLowerCase_char_code:
  "toLowerCase_char c =
     (if (65 \<le> (of_char c :: nat) \<and> (of_char c :: nat) \<le> 90)
         \<or> (192 \<le> (of_char c :: nat) \<and> (of_char c :: nat) \<le> 214)
         \<or> (216 \<le> (of_char c :: nat) \<and> (of_char c :: nat) \<le> 222)
      then char_of ((of_char c :: nat) + 32) else c)"
  by (simp add: toLowerCase_char_def Let_def)

text \<open>
  Two conversations whose last user messages differ (after the 96th character) and
  whose keys are the same.
\<close>

theorem generateCacheKey_prefix_collision_witness:
  "take 94 (trim (toLowerCase (last_user_message [user_turn prompt_detail])))
     = take 94 (trim (toLowerCase (last_user_message [assistant_turn ''Hello'', user_turn prompt_short])))
   \<and> trim (toLowerCase (last_user_message [user_turn prompt_detail]))
       \<noteq> trim (toLowerCase (last_user_message [assistant_turn ''Hello'', user_turn prompt_short]))
   \<and> generateCacheKey [user_turn prompt_detail]
       = generateCacheKey [assistant_turn ''Hello'', user_turn prompt_short]"
proof -
  have 1: "last_user_message [user_turn prompt_detail] = prompt_detail"
    by (simp add: last_user_message_def user_turn_def)
  have 2: "last_user_message [assistant_turn ''Hello'', user_turn prompt_short] = prompt_short"
    by (simp add: last_user_message_def user_turn_def assistant_turn_def numeral_2_eq_2)
  have 3: "trim (toLowerCase prompt_detail) =
    ''please summarise the quarterly sales report for the northern region and list every open risk in detail''"
    by (simp add: prompt_detail_def toLowerCase_def toLowerCase_char_code trim_def isWhiteSpace_def char_of_eq_iff)
  have 4: "trim (toLowerCase prompt_short) =
    ''please summarise the quarterly sales report for the northern region and list every open risk in short''"
    by (simp add: prompt_short_def toLowerCase_def toLowerCase_char_code trim_def isWhiteSpace_def char_of_eq_iff)
  have pre: "take 94 (trim (toLowerCase (last_user_message [user_turn prompt_detail])))
     = take 94 (trim (toLowerCase (last_user_message [assistant_turn ''Hello'', user_turn prompt_short])))"
    by (simp only: 1 2 3 4) simp
  have ne: "trim (toLowerCase (last_user_message [user_turn prompt_detail]))
       \<noteq> trim (toLowerCase (last_user_message [assistant_turn ''Hello'', user_turn prompt_short]))"
    by (simp only: 1 2 3 4) simp
  from generateCacheKey_prefix_collision
         [of "[]" "[user_turn prompt_detail]" "[assistant_turn ''Hello'', user_turn prompt_short]"] pre
  have "generateCacheKey [user_turn prompt_detail]
       = generateCacheKey [assistant_turn ''Hello'', user_turn prompt_short]"
    by blast
  with pre ne show ?thesis by blast
qed

lemma generateCacheKey_split:
  assumes "role u = ''user''" and "\<forall>t\<in>set post. role t \<noteq> ''user''"
  shows "generateCacheKey (pre @ u # post) = take 100 (''cache_'' @ trim (toLowerCase (content u)))"
  using last_user_message_split [OF assms, of pre]
  by (simp add: generateCacheKey_def substring_0)

lemma sint_abs_bound: "nat \<bar>sint (h :: 32 word)\<bar> \<le> 2 ^ 31"
proof -
  have "- (2 ^ 31) \<le> sint h" using sint_ge [of h] by simp
  moreover have "sint h < 2 ^ 31" using sint_lt [of h] by simp
  ultimately show ?thesis by (simp add: nat_le_iff abs_le_iff)
qed

text \<open>
  Claim C5, as the code has it. The key of \<open>_generateCacheKey\<close> is a function of the
  conversation (the same conversation gives the same key), and of no more of it than the
  content of its last \<open>user\<close> turn: two conversations whose last user turns have the same
  content get the same key, whatever stands before that turn and whatever non-user turns
  stand after it. The key is not a hash: it is \<open>cache_\<close> and the lowercased, trimmed
  content itself, cut to 100 characters in all, so its width varies with the message. In
  \<open>CacheManager._generateKey\<close> the normalised prompt is reduced to a 32-bit hash: prompts
  with the same normal form get the same key, and the key is \<open>cache_\<close> and a number of
  at most \<open>2^31\<close>.
\<close>
theorem fingerprint_depends_on_last_user_turn:
  "(role u1 = ''user'' \<and> role u2 = ''user'' \<and> content u1 = content u2
      \<and> (\<forall>t\<in>set post1. role t \<noteq> ''user'') \<and> (\<forall>t\<in>set post2. role t \<noteq> ''user'')
     \<longrightarrow> generateCacheKey (pre1 @ u1 # post1) = generateCacheKey (pre2 @ u2 # post2)
         \<and> generateCacheKey (pre1 @ u1 # post1)
             = take 100 (''cache_'' @ trim (toLowerCase (content u1))))
   \<and> length (generateCacheKey conv) \<le> 100
   \<and> (trim (toLowerCase p1) = trim (toLowerCase p2) \<longrightarrow> generateKey p1 = generateKey p2)
   \<and> generateKey p = ''cache_'' @ showNat (nat \<bar>sint (hash_of (trim (toLowerCase p)))\<bar>)
   \<and> nat \<bar>sint (hash_of (trim (toLowerCase p)))\<bar> \<le> 2 ^ 31"
proof -
  have a: "generateCacheKey (pre1 @ u1 # post1) = generateCacheKey (pre2 @ u2 # post2)
         \<and> generateCacheKey (pre1 @ u1 # post1)
             = take 100 (''cache_'' @ trim (toLowerCase (content u1)))"
    if "role u1 = ''user''" "role u2 = ''user''" "content u1 = content u2"
       "\<forall>t\<in>set post1. role t \<noteq> ''user''" "\<forall>t\<in>set post2. role t \<noteq> ''user''"
    using that generateCacheKey_split [of u1 post1 pre1] generateCacheKey_split [of u2 post2 pre2]
    by simp
  have b: "length (generateCacheKey conv) \<le> 100"
    by (simp add: generateCacheKey_def substring_0)
  have c: "generateKey p1 = generateKey p2" if "trim (toLowerCase p1) = trim (toLowerCase p2)"
    using that by (simp add: generateKey_def)
  have d: "generateKey p = ''cache_'' @ showNat (nat \<bar>sint (hash_of (trim (toLowerCase p)))\<bar>)"
    by (simp add: generateKey_def)
  from a b c d sint_abs_bound [of "hash_of (trim (toLowerCase p))"] show ?thesis by blast
qed

text \<open>Two histories around the same last user turn, and two spellings of one prompt.\<close>

theorem fingerprint_depends_on_last_user_turn_witness:
  "generateCacheKey ([assistant_turn ''Hi, how can I help?''] @ user_turn ''What is AI?'' # [])
     = generateCacheKey ([user_turn ''Tell me a joke'', assistant_turn ''No.''] @ user_turn ''What is AI?''
                           # [assistant_turn ''typing''])
   \<and> generateKey ''  What is AI?'' = generateKey ''what is ai?  ''"
proof -
  have u: "role (user_turn ''What is AI?'') = ''user''" by (simp add: user_turn_def)
  have p1: "\<forall>t\<in>set []. role t \<noteq> ''user''" by simp
  have p2: "\<forall>t\<in>set [assistant_turn ''typing'']. role t \<noteq> ''user''"
    by (simp add: assistant_turn_def)
  have n: "trim (toLowerCase ''  What is AI?'') = trim (toLowerCase ''what is ai?  '')"
    by (simp add: toLowerCase_def toLowerCase_char_code trim_def isWhiteSpace_def char_of_eq_iff)
  from fingerprint_depends_on_last_user_turn
         [of "user_turn ''What is AI?''" "user_turn ''What is AI?''" "[]" "[assistant_turn ''typing'']"
             "[assistant_turn ''Hi, how can I help?'']"
             "[user_turn ''Tell me a joke'', assistant_turn ''No.'']"
             "[]" "''  What is AI?''" "''what is ai?  ''" "[]"]
       u p1 p2 n
  show ?thesis by blast
qed

text \<open>
  Against the claim's fixed-width hash for \<open>_generateCacheKey\<close>: the keys of two one-turn
  conversations are the normalised messages themselves behind \<open>cache_\<close>, 7 and 17
  characters long.
\<close>

theorem generateCacheKey_not_fixed_width_counterexample:
  "generateCacheKey [user_turn ''a''] = ''cache_a''
   \<and> generateCacheKey [user_turn ''What is AI?''] = ''cache_what is ai?''
   \<and> length (generateCacheKey [user_turn ''a'']) = 7
   \<and> length (generateCacheKey [user_turn ''What is AI?'']) = 17"
proof -
  have 1: "last_user_message [user_turn ''a''] = ''a''"
    by (simp add: last_user_message_def user_turn_def)
  have 2: "last_user_message [user_turn ''What is AI?''] = ''What is AI?''"
    by (simp add: last_user_message_def user_turn_def)
  have 3: "trim (toLowerCase ''a'') = ''a''"
    by (simp add: toLowerCase_def toLowerCase_char_code trim_def isWhiteSpace_def char_of_eq_iff)
  have 4: "trim (toLowerCase ''What is AI?'') = ''what is ai?''"
    by (simp add: toLowerCase_def toLowerCase_char_code trim_def isWhiteSpace_def char_of_eq_iff)
  show ?thesis by (simp add: generateCacheKey_def substring_0 1 2 3 4)
qed

lemma send_sent:
  "conv \<noteq> [] \<Longrightarrow>
   sent (snd (sendInferenceRequest a sid conv ps t0 settled t1)) = sent a @ [(''POST'', ''/inference'')]"
  by (cases settled)
     (simp_all add: sendInferenceRequest_def request_def logTelemetry_def cacheResponse_def Let_def)

lemma send_isCached:
  "conv \<noteq> [] \<Longrightarrow>
   fst (sendInferenceRequest a sid conv ps t0 (Inr reply) t1) =
     Inr \<lparr>res_response = reply_response reply, res_latency = t1 - t0,
          res_isCached = (case reply_isCached reply of None \<Rightarrow> False | Some b \<Rightarrow> b),
          res_tokens = (case reply_tokens reply of None \<Rightarrow> 0 | Some n \<Rightarrow> n),
          res_conversationLength = length conv\<rparr>"
  by (simp add: sendInferenceRequest_def request_def Let_def)

lemma send_caches:
  "conv \<noteq> [] \<Longrightarrow>
   Map_get (api_cache (snd (sendInferenceRequest a sid conv ps t0 (Inr reply) t1))) (generateCacheKey conv)
     = Some \<lparr>c_response = reply_response reply, c_latency = t1 - t0, c_timestamp = t1,
             c_expiresAt = t1 + ttl_or_default ps * 1000, c_conversationLength = length conv\<rparr>"
  by (simp add: sendInferenceRequest_def request_def logTelemetry_def cacheResponse_def Let_def
                Map_get_set_same)

text \<open>
  Claim C1 at two successive calls for the conversation \<open>What is AI?\<close>. After the first
  call the response cache holds an entry for the conversation that is valid at the time
  of the second call (\<open>_checkCache\<close> would return it). The second call all the same
  posts to \<open>/inference\<close> again and reports \<open>isCached = false\<close>, the flag of the backend's
  reply: the request has been sent twice. The claim asks for \<open>wasCached = true\<close> and one
  request.
\<close>
theorem second_send_repeats_the_request:
  "fst (checkCache after_first_send what_is_ai 2000)
     = Some \<lparr>c_response = ''AI is the study of machines that learn.'', c_latency = 500,
             c_timestamp = 1500, c_expiresAt = 3601500, c_conversationLength = 1\<rparr>
   \<and> fst (sendInferenceRequest after_first_send ''s1'' what_is_ai \<lparr>param_ttl = None\<rparr> 2000
            (Inr sample_reply) 2600)
       = Inr \<lparr>res_response = ''AI is the study of machines that learn.'', res_latency = 600,
              res_isCached = False, res_tokens = 9, res_conversationLength = 1\<rparr>
   \<and> sent (snd (sendInferenceRequest after_first_send ''s1'' what_is_ai \<lparr>param_ttl = None\<rparr> 2000
                  (Inr sample_reply) 2600))
       = [(''POST'', ''/inference''), (''POST'', ''/inference'')]"
proof -
  have ne: "what_is_ai \<noteq> []" by (simp add: what_is_ai_def)
  have len: "length what_is_ai = 1" by (simp add: what_is_ai_def)
  have c: "Map_get (api_cache after_first_send) (generateCacheKey what_is_ai)
     = Some \<lparr>c_response = ''AI is the study of machines that learn.'', c_latency = 500,
             c_timestamp = 1500, c_expiresAt = 3601500, c_conversationLength = 1\<rparr>"
    unfolding after_first_send_def
    by (subst send_caches [OF ne]) (simp add: sample_reply_def ttl_or_default_def len)
  have 1: "fst (checkCache after_first_send what_is_ai 2000)
     = Some \<lparr>c_response = ''AI is the study of machines that learn.'', c_latency = 500,
             c_timestamp = 1500, c_expiresAt = 3601500, c_conversationLength = 1\<rparr>"
    by (simp add: checkCache_def c isCacheExpired_def Let_def)
  have 2: "fst (sendInferenceRequest after_first_send ''s1'' what_is_ai \<lparr>param_ttl = None\<rparr> 2000
            (Inr sample_reply) 2600)
       = Inr \<lparr>res_response = ''AI is the study of machines that learn.'', res_latency = 600,
              res_isCached = False, res_tokens = 9, res_conversationLength = 1\<rparr>"
    by (subst send_isCached [OF ne]) (simp add: sample_reply_def len)
  have "sent after_first_send = [(''POST'', ''/inference'')]"
    unfolding after_first_send_def
    by (subst send_sent [OF ne]) (simp add: APIService_def)
  then have 3: "sent (snd (sendInferenceRequest after_first_send ''s1'' what_is_ai \<lparr>param_ttl = None\<rparr> 2000
                  (Inr sample_reply) 2600))
       = [(''POST'', ''/inference''), (''POST'', ''/inference'')]"
    by (subst send_sent [OF ne]) simp
  from 1 2 3 show ?thesis by simp
qed

text \<open>
  \<open>_checkCache\<close>, the lookup inside APIService, counts as \<open>CacheManager.get\<close> does but
  deletes nothing: an expired entry is reported as a miss and stays in the map.
\<close>

lemma checkCache_counts:
  "(Map_get (api_cache a) (generateCacheKey conv) = None \<longrightarrow>
      fst (checkCache a conv now) = None
      \<and> cacheMisses (telemetry (snd (checkCache a conv now))) = cacheMisses (telemetry a) + 1
      \<and> api_cache (snd (checkCache a conv now)) = api_cache a)
   \<and> (\<forall>e. Map_get (api_cache a) (generateCacheKey conv) = Some e \<and> c_expiresAt e < now \<longrightarrow>
         fst (checkCache a conv now) = None
         \<and> cacheMisses (telemetry (snd (checkCache a conv now))) = cacheMisses (telemetry a) + 1
         \<and> api_cache (snd (checkCache a conv now)) = api_cache a)
   \<and> (\<forall>e. Map_get (api_cache a) (generateCacheKey conv) = Some e \<and> now \<le> c_expiresAt e \<longrightarrow>
         fst (checkCache a conv now) = Some e
         \<and> cacheHits (telemetry (snd (checkCache a conv now))) = cacheHits (telemetry a) + 1
         \<and> api_cache (snd (checkCache a conv now)) = api_cache a)"
  by (auto simp: checkCache_def isCacheExpired_def logTelemetry_def Let_def)

text \<open>
  Claim C6, as the code has it, for both lookups. \<open>CacheManager.get\<close>: on a key that is
  missing it returns absent, adds one to \<open>misses\<close> and changes nothing else; on a key
  that is present but expired (\<open>now > expiresAt\<close>) it returns absent, adds one to
  \<open>misses\<close> and deletes the entry from the map, every other key keeping its entry; on a
  key that is present and not expired it returns the entry, with its \<open>accessCount\<close>
  raised by one, and adds one to \<open>hits\<close>. \<open>APIService._checkCache\<close>: on a missing or an
  expired key it returns absent and adds one to \<open>cacheMisses\<close>, on a valid one it
  returns the entry and adds one to \<open>cacheHits\<close>; in all three cases its map is left
  as it was, so an expired entry is not purged there.
\<close>
theorem lookup_counts_and_get_purges:
  "((Map_get (cache cm) (generateKey p) = None \<longrightarrow>
      get cm p now = (None, cm\<lparr>stats := (stats cm)\<lparr>misses := misses (stats cm) + 1\<rparr>\<rparr>))
   \<and> (\<forall>e. Map_get (cache cm) (generateKey p) = Some e \<and> expiresAt e < now \<longrightarrow>
         fst (get cm p now) = None
         \<and> stats (snd (get cm p now)) = (stats cm)\<lparr>misses := misses (stats cm) + 1\<rparr>
         \<and> cache (snd (get cm p now)) = Map_delete (cache cm) (generateKey p)
         \<and> \<not> Map_has (cache (snd (get cm p now))) (generateKey p)
         \<and> (\<forall>k. k \<noteq> generateKey p \<longrightarrow>
                Map_get (cache (snd (get cm p now))) k = Map_get (cache cm) k))
   \<and> (\<forall>e. Map_get (cache cm) (generateKey p) = Some e \<and> now \<le> expiresAt e \<longrightarrow>
         fst (get cm p now) = Some (e\<lparr>accessCount := accessCount e + 1\<rparr>)
         \<and> stats (snd (get cm p now)) = (stats cm)\<lparr>hits := hits (stats cm) + 1\<rparr>
         \<and> Map_get (cache (snd (get cm p now))) (generateKey p)
             = Some (e\<lparr>accessCount := accessCount e + 1\<rparr>)
         \<and> (\<forall>k. k \<noteq> generateKey p \<longrightarrow>
                Map_get (cache (snd (get cm p now))) k = Map_get (cache cm) k)))
   \<and> ((Map_get (api_cache a) (generateCacheKey conv) = None \<longrightarrow>
      fst (checkCache a conv t) = None
      \<and> cacheMisses (telemetry (snd (checkCache a conv t))) = cacheMisses (telemetry a) + 1
      \<and> api_cache (snd (checkCache a conv t)) = api_cache a)
   \<and> (\<forall>e. Map_get (api_cache a) (generateCacheKey conv) = Some e \<and> c_expiresAt e < t \<longrightarrow>
         fst (checkCache a conv t) = None
         \<and> cacheMisses (telemetry (snd (checkCache a conv t))) = cacheMisses (telemetry a) + 1
         \<and> api_cache (snd (checkCache a conv t)) = api_cache a)
   \<and> (\<forall>e. Map_get (api_cache a) (generateCacheKey conv) = Some e \<and> t \<le> c_expiresAt e \<longrightarrow>
         fst (checkCache a conv t) = Some e
         \<and> cacheHits (telemetry (snd (checkCache a conv t))) = cacheHits (telemetry a) + 1
         \<and> api_cache (snd (checkCache a conv t)) = api_cache a))"
  by (rule conjI [OF get_counts checkCache_counts])

lemma after_first_send_entry:
  "Map_get (api_cache after_first_send) (generateCacheKey what_is_ai)
     = Some \<lparr>c_response = ''AI is the study of machines that learn.'', c_latency = 500,
             c_timestamp = 1500, c_expiresAt = 3601500, c_conversationLength = 1\<rparr>"
proof -
  have ne: "what_is_ai \<noteq> []" by (simp add: what_is_ai_def)
  have len: "length what_is_ai = 1" by (simp add: what_is_ai_def)
  show ?thesis
    unfolding after_first_send_def
    by (subst send_caches [OF ne]) (simp add: sample_reply_def ttl_or_default_def len)
qed

lemma after_first_send_telemetry:
  "cacheHits (telemetry after_first_send) = 0 \<and> cacheMisses (telemetry after_first_send) = 0"
  by (simp add: after_first_send_def sendInferenceRequest_def request_def logTelemetry_def
                cacheResponse_def Let_def APIService_def what_is_ai_def)

text \<open>
  The cases at concrete caches: a missing key, an expired entry and a valid one in the
  CacheManager; a missing key, an expired entry and a valid one in the APIService.
\<close>

theorem lookup_counts_and_get_purges_witness:
  "get (CacheManager 500 1) ''hello'' 1500
     = (None, (CacheManager 500 1)\<lparr>stats := \<lparr>hits = 0, misses = 1, evictions = 0\<rparr>\<rparr>)
   \<and> fst (get sample_cache ''hello'' 2001) = None
   \<and> misses (stats (snd (get sample_cache ''hello'' 2001))) = 1
   \<and> cache (snd (get sample_cache ''hello'' 2001)) = []
   \<and> fst (get sample_cache ''hello'' 2000) = Some (sample_entry\<lparr>accessCount := 1\<rparr>)
   \<and> hits (stats (snd (get sample_cache ''hello'' 2000))) = 1
   \<and> fst (checkCache APIService what_is_ai 2000) = None
   \<and> cacheMisses (telemetry (snd (checkCache APIService what_is_ai 2000))) = 1
   \<and> fst (checkCache after_first_send what_is_ai 3601501) = None
   \<and> cacheMisses (telemetry (snd (checkCache after_first_send what_is_ai 3601501))) = 1
   \<and> api_cache (snd (checkCache after_first_send what_is_ai 3601501)) = api_cache after_first_send
   \<and> fst (checkCache after_first_send what_is_ai 3601500)
       = Some \<lparr>c_response = ''AI is the study of machines that learn.'', c_latency = 500,
               c_timestamp = 1500, c_expiresAt = 3601500, c_conversationLength = 1\<rparr>
   \<and> cacheHits (telemetry (snd (checkCache after_first_send what_is_ai 3601500))) = 1"
proof -
  have m: "Map_get (cache (CacheManager 500 1)) (generateKey ''hello'') = None"
    by (simp add: CacheManager_def Map_get_def)
  have s: "Map_get (cache sample_cache) (generateKey ''hello'') = Some sample_entry"
    by (simp add: sample_cache_def Map_get_def)
  have x: "expiresAt sample_entry < 2001" "2000 \<le> expiresAt sample_entry"
    by (simp_all add: sample_entry_def)
  have am: "Map_get (api_cache APIService) (generateCacheKey what_is_ai) = None"
    by (simp add: APIService_def Map_get_def)
  have a0: "cacheMisses (telemetry APIService) = 0"
    by (simp add: APIService_def)
  note T = lookup_counts_and_get_purges
  from T [of "CacheManager 500 1" "''hello''" 1500 APIService what_is_ai 2000] m am a0
  have 1: "get (CacheManager 500 1) ''hello'' 1500
     = (None, (CacheManager 500 1)\<lparr>stats := \<lparr>hits = 0, misses = 1, evictions = 0\<rparr>\<rparr>)"
    "fst (checkCache APIService what_is_ai 2000) = None"
    "cacheMisses (telemetry (snd (checkCache APIService what_is_ai 2000))) = 1"
    by (simp_all add: CacheManager_def)
  from T [of sample_cache "''hello''" 2001 after_first_send what_is_ai 3601501] s x(1)
       after_first_send_entry after_first_send_telemetry
  have 2: "fst (get sample_cache ''hello'' 2001) = None"
    "misses (stats (snd (get sample_cache ''hello'' 2001))) = 1"
    "cache (snd (get sample_cache ''hello'' 2001)) = []"
    "fst (checkCache after_first_send what_is_ai 3601501) = None"
    "cacheMisses (telemetry (snd (checkCache after_first_send what_is_ai 3601501))) = 1"
    "api_cache (snd (checkCache after_first_send what_is_ai 3601501)) = api_cache after_first_send"
    by (simp_all add: sample_cache_def CacheManager_def Map_delete_def)
  from T [of sample_cache "''hello''" 2000 after_first_send what_is_ai 3601500] s x(2)
       after_first_send_entry after_first_send_telemetry
  have 3: "fst (get sample_cache ''hello'' 2000) = Some (sample_entry\<lparr>accessCount := 1\<rparr>)"
    "hits (stats (snd (get sample_cache ''hello'' 2000))) = 1"
    "fst (checkCache after_first_send what_is_ai 3601500)
       = Some \<lparr>c_response = ''AI is the study of machines that learn.'', c_latency = 500,
               c_timestamp = 1500, c_expiresAt = 3601500, c_conversationLength = 1\<rparr>"
    "cacheHits (telemetry (snd (checkCache after_first_send what_is_ai 3601500))) = 1"
    by (simp_all add: sample_cache_def CacheManager_def sample_entry_def)
  from 1 2 3 show ?thesis by simp
qed

text \<open>
  Against the claim's purge for \<open>_checkCache\<close>: the entry cached by the first send
  expires at 3601500; a lookup at 3601501 reports a miss, and the expired entry is still
  in the map afterwards.
\<close>

theorem checkCache_keeps_expired_counterexample:
  "fst (checkCache after_first_send what_is_ai 3601501) = None
   \<and> Map_has (api_cache (snd (checkCache after_first_send what_is_ai 3601501)))
        (generateCacheKey what_is_ai)
   \<and> Map_get (api_cache (snd (checkCache after_first_send what_is_ai 3601501)))
        (generateCacheKey what_is_ai)
       = Some \<lparr>c_response = ''AI is the study of machines that learn.'', c_latency = 500,
               c_timestamp = 1500, c_expiresAt = 3601500, c_conversationLength = 1\<rparr>"
  using after_first_send_entry
  by (simp add: checkCache_def isCacheExpired_def logTelemetry_def Let_def Map_has_get)

section \<open>Properties of SessionManager\<close>

lemma sm_saveGuestSessions [simp]: "sm (saveGuestSessions w) = sm w"
  by (simp add: saveGuestSessions_def split: sum.splits)

lemma api_saveGuestSessions [simp]: "api (saveGuestSessions w) = api w"
  by (simp add: saveGuestSessions_def split: sum.splits)

lemma sm_with_sessions [simp]:
  "sessions (sm (with_sessions w m)) = m"
  "isGuestMode (sm (with_sessions w m)) = isGuestMode (sm w)"
  "currentSessionId (sm (with_sessions w m)) = currentSessionId (sm w)"
  "api (with_sessions w m) = api w"
  "localStorage (with_sessions w m) = localStorage w"
  by (simp_all add: with_sessions_def)

lemma api_createSession_Inr:
  "api_createSession a uid (Inr s) now =
     (Inr s, logTelemetry (a\<lparr>sent := sent a @ [(''POST'', ''/sessions'')]\<rparr>) ''CREATE_SESSION'' []
               ''Session created'' 0 False now)"
  by (simp add: api_createSession_def request_def)

lemma api_createSession_Inl:
  "api_createSession a uid (Inl e) now = (Inl e, a\<lparr>sent := sent a @ [(''POST'', ''/sessions'')]\<rparr>)"
  by (simp add: api_createSession_def request_def)

lemma Map_set_empty [simp]: "Map_set [] k v = [(k, v)]"
  by (simp add: Map_set_def)

text \<open>
  Claim C4, as the code has it. In the first class of the file (backend only)
  \<open>createSession\<close> clears the local map before it calls the backend: after a successful
  create the map holds the new session and nothing else, and after a failed one it is
  empty. In the second class (with guest mode) \<open>createSession\<close> clears nothing: in
  either mode the new session is set into the map as it was, and every other key keeps
  its session.
\<close>
theorem createSession_clears_in_first_class_only:
  "fst (createSession_v1 (m1, a) uid (Inr s) now) = Inr s
   \<and> sessions_v1 (fst (snd (createSession_v1 (m1, a) uid (Inr s) now))) = [(sessionId s, s)]
   \<and> fst (createSession_v1 (m1, a) uid (Inl e) now) = Inl e
   \<and> sessions_v1 (fst (snd (createSession_v1 (m1, a) uid (Inl e) now))) = []
   \<and> (\<not> isGuestMode (sm w) \<longrightarrow>
         fst (createSession w uid clk rnd (Inr s)) = Inr s
         \<and> sessions (sm (snd (createSession w uid clk rnd (Inr s))))
             = Map_set (sessions (sm w)) (sessionId s) s
         \<and> (\<forall>k. k \<noteq> sessionId s \<longrightarrow>
                Map_get (sessions (sm (snd (createSession w uid clk rnd (Inr s))))) k
                  = Map_get (sessions (sm w)) k))
   \<and> (isGuestMode (sm w) \<longrightarrow>
         (\<exists>g. fst (createSession w uid clk rnd settled) = Inr g
            \<and> sessions (sm (snd (createSession w uid clk rnd settled)))
                = Map_set (sessions (sm w)) (sessionId g) g
            \<and> (\<forall>k. k \<noteq> sessionId g \<longrightarrow>
                   Map_get (sessions (sm (snd (createSession w uid clk rnd settled)))) k
                     = Map_get (sessions (sm w)) k)))"
  by (simp add: createSession_v1_def createSession_def api_createSession_Inr api_createSession_Inl
                Let_def Map_get_set_other)

text \<open>The theorem at a world that holds one session, in remote mode and in guest mode.\<close>

theorem createSession_clears_in_first_class_only_witness:
  "\<not> isGuestMode (sm remote_world)
   \<and> sessions (sm (snd (createSession remote_world ''u1'' clock0 ''0.4fzyo82mvyr'' (Inr session_b))))
       = [(''sess_a'', session_a), (''sess_b'', session_b)]
   \<and> isGuestMode (sm guest_world)
   \<and> Map_get (sessions (sm (snd (createSession guest_world ''u1'' clock0 ''0.4fzyo82mvyr'' (Inr session_b)))))
        ''sess_a'' = Some session_a"
proof -
  have r: "\<not> isGuestMode (sm remote_world)" by (simp add: remote_world_def)
  have g: "isGuestMode (sm guest_world)" by (simp add: guest_world_def)
  from createSession_clears_in_first_class_only
         [of SessionManager_v1 APIService "''u1''" session_b 0 "Error ''x''" remote_world clock0
             "''0.4fzyo82mvyr''" "Inr session_b"] r
  have 1: "sessions (sm (snd (createSession remote_world ''u1'' clock0 ''0.4fzyo82mvyr'' (Inr session_b))))
       = [(''sess_a'', session_a), (''sess_b'', session_b)]"
    by (simp add: remote_world_def Map_set_def session_b_def)
  from createSession_clears_in_first_class_only
         [of SessionManager_v1 APIService "''u1''" session_b 0 "Error ''x''" guest_world clock0
             "''0.4fzyo82mvyr''" "Inr session_b"] g
  obtain s where s: "fst (createSession guest_world ''u1'' clock0 ''0.4fzyo82mvyr'' (Inr session_b)) = Inr s"
    and k: "\<forall>k. k \<noteq> sessionId s \<longrightarrow>
               Map_get (sessions (sm (snd (createSession guest_world ''u1'' clock0 ''0.4fzyo82mvyr''
                                             (Inr session_b))))) k
               = Map_get (sessions (sm guest_world)) k"
    by blast
  from s g have "sessionId s = ''guest_session_'' @ showInt (now_ms clock0) @ ''_'' @ substr ''0.4fzyo82mvyr'' 2 9"
    by (auto simp: createSession_def Let_def)
  then have "''sess_a'' \<noteq> sessionId s" by simp
  with k have 2: "Map_get (sessions (sm (snd (createSession guest_world ''u1'' clock0 ''0.4fzyo82mvyr''
                                             (Inr session_b))))) ''sess_a''
               = Map_get (sessions (sm guest_world)) ''sess_a''"
    by metis
  have "Map_get (sessions (sm guest_world)) ''sess_a'' = Some session_a"
    by (simp add: guest_world_def Map_get_def)
  with r g 1 2 show ?thesis by simp
qed

text \<open>
  Claim C4 as stated asks for a map that holds exactly the new session after every
  successful create. In the second class a world that holds \<open>sess_a\<close> holds both sessions
  after \<open>sess_b\<close> has been created.
\<close>

theorem createSession_keeps_previous_counterexample:
  "getAllSessions (snd (createSession remote_world ''u1'' clock0 ''0.4fzyo82mvyr'' (Inr session_b)))
     = [session_a, session_b]
   \<and> getAllSessions (snd (createSession remote_world ''u1'' clock0 ''0.4fzyo82mvyr'' (Inr session_b)))
       \<noteq> [session_b]"
  by (simp add: createSession_def remote_world_def api_createSession_Inr getAllSessions_def
                Map_values_def Map_set_def session_b_def session_a_def)

lemma Map_set_keys_present:
  "Map_get m k = Some v \<Longrightarrow> map fst (Map_set m k v') = map fst m"
proof -
  assume "Map_get m k = Some v"
  then have "k \<in> set (map fst m)"
    by (auto simp: Map_get_def dest: map_of_SomeD intro: rev_image_eqI)
  then show ?thesis by (simp add: Map_set_def AList.update_keys)
qed

lemma clear_local_Some:
  "Map_get (sessions (sm w)) sid = Some s \<Longrightarrow>
   clear_local w sid clk =
     Some (with_sessions w (Map_set (sessions (sm w)) sid
                              (s\<lparr>messages := Some [], lastAccessedAt := now_iso clk\<rparr>)))"
  by (simp add: clear_local_def)

lemma clearHistory_sessions:
  assumes "Map_get (sessions (sm w)) sid = Some s"
    and "fst (clearHistory w sid clk settled) = Inr True"
  shows "sm (snd (clearHistory w sid clk settled)) =
           (sm w)\<lparr>sessions := Map_set (sessions (sm w)) sid
                                (s\<lparr>messages := Some [], lastAccessedAt := now_iso clk\<rparr>)\<rparr>"
proof (cases "isGuestMode (sm w)")
  case True
  with assms(1) show ?thesis
    by (simp add: clearHistory_def clear_local_Some with_sessions_def)
next
  case False
  show ?thesis
  proof (cases settled)
    case (Inl e)
    with False assms(2) show ?thesis
      by (simp add: clearHistory_def api_clearSessionHistory_def request_def)
  next
    case (Inr u)
    with False assms(1) show ?thesis
      by (simp add: clearHistory_def api_clearSessionHistory_def request_def clear_local_def
                    with_sessions_def)
  qed
qed

text \<open>
  Claim C8. Let \<open>clearHistory\<close> return \<open>true\<close> for a session that the local map holds.
  Then \<open>getMessages\<close> for that session returns the empty list, without asking the
  backend; the session is still in the map, at the same place in the listing, with its
  \<open>messages\<close> emptied and its \<open>lastAccessedAt\<close> set to the clock and no other field
  changed; the map has the same keys in the same order; every other key has the session
  it had; the current session id and the mode are untouched.
\<close>
theorem clearHistory_empties_one_session:
  assumes "Map_get (sessions (sm w)) sid = Some s"
    and "fst (clearHistory w sid clk settled) = Inr True"
  shows "getMessages (snd (clearHistory w sid clk settled)) uid sid settled'
           = (Inr [], snd (clearHistory w sid clk settled))
         \<and> Map_get (sessions (sm (snd (clearHistory w sid clk settled)))) sid
             = Some (s\<lparr>messages := Some [], lastAccessedAt := now_iso clk\<rparr>)
         \<and> map fst (sessions (sm (snd (clearHistory w sid clk settled)))) = map fst (sessions (sm w))
         \<and> length (getAllSessions (snd (clearHistory w sid clk settled))) = length (getAllSessions w)
         \<and> (\<forall>k. k \<noteq> sid \<longrightarrow>
                Map_get (sessions (sm (snd (clearHistory w sid clk settled)))) k
                  = Map_get (sessions (sm w)) k)
         \<and> currentSessionId (sm (snd (clearHistory w sid clk settled))) = currentSessionId (sm w)
         \<and> isGuestMode (sm (snd (clearHistory w sid clk settled))) = isGuestMode (sm w)"
proof -
  let ?w' = "snd (clearHistory w sid clk settled)"
  let ?s' = "s\<lparr>messages := Some [], lastAccessedAt := now_iso clk\<rparr>"
  from clearHistory_sessions [OF assms]
  have sm': "sm ?w' = (sm w)\<lparr>sessions := Map_set (sessions (sm w)) sid ?s'\<rparr>" .
  then have g: "Map_get (sessions (sm ?w')) sid = Some ?s'"
    by (simp add: Map_get_set_same)
  then have 1: "getMessages ?w' uid sid settled' = (Inr [], ?w')"
    by (simp add: getMessages_def)
  from sm' assms(1) have 3: "map fst (sessions (sm ?w')) = map fst (sessions (sm w))"
    by (simp add: Map_set_keys_present)
  then have "length (map fst (sessions (sm ?w'))) = length (map fst (sessions (sm w)))"
    by simp
  then have 4: "length (getAllSessions ?w') = length (getAllSessions w)"
    by (simp add: getAllSessions_def Map_values_def)
  from sm' have 5: "\<forall>k. k \<noteq> sid \<longrightarrow> Map_get (sessions (sm ?w')) k = Map_get (sessions (sm w)) k"
    by (simp add: Map_get_set_other)
  from sm' have 6: "currentSessionId (sm ?w') = currentSessionId (sm w)"
    "isGuestMode (sm ?w') = isGuestMode (sm w)" by simp_all
  from 1 g 3 4 5 6 show ?thesis by blast
qed

text \<open>The theorem at the remote world that holds \<open>sess_a\<close>, the backend accepting the call.\<close>

theorem clearHistory_empties_one_session_witness:
  "Map_get (sessions (sm remote_world)) ''sess_a'' = Some session_a
   \<and> fst (clearHistory remote_world ''sess_a'' clock0 (Inr ())) = Inr True
   \<and> fst (getMessages (snd (clearHistory remote_world ''sess_a'' clock0 (Inr ()))) ''u1'' ''sess_a''
            (Inl (Error ''offline''))) = Inr []
   \<and> Map_get (sessions (sm (snd (clearHistory remote_world ''sess_a'' clock0 (Inr ()))))) ''sess_a''
       = Some (session_a\<lparr>messages := Some [], lastAccessedAt := ''2025-01-03T00:00:00.000Z''\<rparr>)"
proof -
  have p: "Map_get (sessions (sm remote_world)) ''sess_a'' = Some session_a"
    by (simp add: remote_world_def Map_get_def)
  have t: "fst (clearHistory remote_world ''sess_a'' clock0 (Inr ())) = Inr True"
    by (simp add: clearHistory_def remote_world_def api_clearSessionHistory_def request_def
                  clear_local_def Map_get_def)
  from clearHistory_empties_one_session [OF p t, of "''u1''" "Inl (Error ''offline'')"] p t
  show ?thesis by (simp add: clock0_def)
qed

lemma saveGuestSessions_cases:
  "localStorage (saveGuestSessions w) = localStorage w
   \<or> getItem (localStorage (saveGuestSessions w)) ''guestSessions''
       = Some (stringify (JArr (map session_json (Map_values (sessions (sm w))))))"
  by (auto simp: saveGuestSessions_def setItem_def getItem_def Let_def update_conv'
           split: sum.splits if_splits)

lemma getSession_never_throws: "\<exists>v. fst (getSession w sid settled) = Inr v"
  by (cases settled)
     (auto simp: getSession_def api_getSession_def request_def split: option.splits)

lemma getMessages_never_throws: "\<exists>v. fst (getMessages w uid sid settled) = Inr v"
  by (cases settled)
     (auto simp: getMessages_def api_getSessionMessages_def request_def Let_def split: option.splits)

lemma initialize_never_throws: "\<exists>v. fst (initialize w uid isGuest settled) = Inr v"
  by (auto simp: initialize_def Let_def split: prod.splits)

lemma refreshSessions_never_throws: "\<exists>v. fst (refreshSessions w uid settled) = Inr v"
  by (auto simp: refreshSessions_def split: prod.splits)

lemma getSession_failed:
  "\<not> Map_has (sessions (sm w)) sid \<Longrightarrow> fst (getSession w sid (Inl e)) = Inr None"
  by (simp add: getSession_def api_getSession_def request_def)

lemma getSession_local:
  "Map_has (sessions (sm w)) sid \<Longrightarrow>
   getSession w sid settled = (Inr (Map_get (sessions (sm w)) sid), w)"
  by (simp add: getSession_def)

lemma getMessages_local:
  "Map_get (sessions (sm w)) sid = Some s \<Longrightarrow> messages s = Some ms \<Longrightarrow>
   getMessages w uid sid settled = (Inr ms, w)"
  by (simp add: getMessages_def)

lemma getMessages_failed:
  "(case Map_get (sessions (sm w)) sid of None \<Rightarrow> None | Some s \<Rightarrow> messages s) = None \<Longrightarrow>
   fst (getMessages w uid sid (Inl e)) = Inr []"
  by (simp add: getMessages_def api_getSessionMessages_def request_def Let_def)

text \<open>
  Claim C7, as the code has it. In remote mode a failed backend call makes
  \<open>createSession\<close> rethrow the error, and makes \<open>deleteSession\<close> and \<open>clearHistory\<close> return
  \<open>false\<close> where success returns \<open>true\<close>; in all three the local manager is left as it
  was. In guest mode the three operations return their success result whatever
  happens: \<open>createSession\<close> returns the session also when \<open>localStorage\<close> has refused the
  write and holds nothing new. The read operations \<open>initialize\<close>, \<open>refreshSessions\<close>,
  \<open>getSession\<close> and \<open>getMessages\<close> never throw; \<open>getSession\<close> and \<open>getMessages\<close> answer
  from the local map when it has the data and with \<open>null\<close> and \<open>[]\<close> when it has not
  and the request fails.
\<close>
theorem write_failures_signalled_in_remote_mode:
  "(\<not> isGuestMode (sm w) \<longrightarrow>
      fst (createSession w uid clk rnd (Inl e)) = Inl e
      \<and> sm (snd (createSession w uid clk rnd (Inl e))) = sm w
      \<and> fst (createSession w uid clk rnd (Inr s)) = Inr s
      \<and> fst (deleteSession w uid sid clk (Inl e)) = Inr False
      \<and> sm (snd (deleteSession w uid sid clk (Inl e))) = sm w
      \<and> fst (deleteSession w uid sid clk (Inr ())) = Inr True
      \<and> fst (clearHistory w sid clk (Inl e)) = Inr False
      \<and> sm (snd (clearHistory w sid clk (Inl e))) = sm w
      \<and> fst (clearHistory w sid clk (Inr ())) = Inr True)
   \<and> (isGuestMode (sm w) \<longrightarrow>
        (\<exists>g. fst (createSession w uid clk rnd settled1) = Inr g)
        \<and> fst (deleteSession w uid sid clk settled2) = Inr True
        \<and> fst (clearHistory w sid clk settled2) = Inr True
        \<and> (localStorage (snd (createSession w uid clk rnd settled1)) = localStorage w
            \<or> getItem (localStorage (snd (createSession w uid clk rnd settled1))) ''guestSessions''
                = Some (stringify (JArr (map session_json
                     (getAllSessions (snd (createSession w uid clk rnd settled1))))))))
   \<and> (\<exists>v. fst (initialize w uid isGuest settled3) = Inr v)
   \<and> (\<exists>v. fst (refreshSessions w uid settled3) = Inr v)
   \<and> (\<exists>v. fst (getSession w sid settled4) = Inr v)
   \<and> (\<exists>v. fst (getMessages w uid sid settled5) = Inr v)
   \<and> (Map_has (sessions (sm w)) sid \<longrightarrow>
        getSession w sid settled4 = (Inr (Map_get (sessions (sm w)) sid), w))
   \<and> (\<not> Map_has (sessions (sm w)) sid \<longrightarrow> fst (getSession w sid (Inl e)) = Inr None)
   \<and> (\<forall>t ms. Map_get (sessions (sm w)) sid = Some t \<and> messages t = Some ms \<longrightarrow>
         getMessages w uid sid settled5 = (Inr ms, w))
   \<and> ((case Map_get (sessions (sm w)) sid of None \<Rightarrow> None | Some t \<Rightarrow> messages t) = None \<longrightarrow>
         fst (getMessages w uid sid (Inl e)) = Inr [])"
proof -
  have remote: "fst (createSession w uid clk rnd (Inl e)) = Inl e
      \<and> sm (snd (createSession w uid clk rnd (Inl e))) = sm w
      \<and> fst (createSession w uid clk rnd (Inr s)) = Inr s
      \<and> fst (deleteSession w uid sid clk (Inl e)) = Inr False
      \<and> sm (snd (deleteSession w uid sid clk (Inl e))) = sm w
      \<and> fst (deleteSession w uid sid clk (Inr ())) = Inr True
      \<and> fst (clearHistory w sid clk (Inl e)) = Inr False
      \<and> sm (snd (clearHistory w sid clk (Inl e))) = sm w
      \<and> fst (clearHistory w sid clk (Inr ())) = Inr True"
    if "\<not> isGuestMode (sm w)"
    using that
    by (simp add: createSession_def deleteSession_def clearHistory_def api_createSession_def
                  api_deleteSession_def api_clearSessionHistory_def request_def clear_local_def
             split: option.splits)
  have guest: "(\<exists>g. fst (createSession w uid clk rnd settled1) = Inr g)
        \<and> fst (deleteSession w uid sid clk settled2) = Inr True
        \<and> fst (clearHistory w sid clk settled2) = Inr True
        \<and> (localStorage (snd (createSession w uid clk rnd settled1)) = localStorage w
            \<or> getItem (localStorage (snd (createSession w uid clk rnd settled1))) ''guestSessions''
                = Some (stringify (JArr (map session_json
                     (getAllSessions (snd (createSession w uid clk rnd settled1)))))))"
    if g: "isGuestMode (sm w)"
  proof -
    let ?s = "\<lparr>sessionId = ''guest_session_'' @ showInt (now_ms clk) @ ''_'' @ substr rnd 2 9,
               userId = uid, messages = Some [],
               s_createdAt = now_iso clk, lastAccessedAt = now_iso clk\<rparr>"
    let ?w1 = "with_sessions w (Map_set (sessions (sm w)) (sessionId ?s) ?s)"
    from g have c: "createSession w uid clk rnd settled1 = (Inr ?s, saveGuestSessions ?w1)"
      by (simp add: createSession_def Let_def)
    from saveGuestSessions_cases [of ?w1]
    have "localStorage (saveGuestSessions ?w1) = localStorage w
          \<or> getItem (localStorage (saveGuestSessions ?w1)) ''guestSessions''
              = Some (stringify (JArr (map session_json (getAllSessions (saveGuestSessions ?w1)))))"
      by (simp add: getAllSessions_def)
    with c g show ?thesis
      by (simp add: deleteSession_def clearHistory_def split: option.splits)
  qed
  from remote guest initialize_never_throws [of w uid isGuest settled3]
    refreshSessions_never_throws [of w uid settled3] getSession_never_throws [of w sid settled4]
    getMessages_never_throws [of w uid sid settled5] getSession_local [of w sid settled4]
    getSession_failed [of w sid e] getMessages_local [of w sid _ _ uid settled5]
    getMessages_failed [of w sid uid e]
  show ?thesis by blast
qed


text \<open>The theorem at the two sample worlds, every request failing.\<close>

theorem write_failures_signalled_in_remote_mode_witness:
  "\<not> isGuestMode (sm remote_world)
   \<and> fst (createSession remote_world ''u1'' clock0 ''0.4fzyo82mvyr'' (Inl (Error ''offline'')))
       = Inl (Error ''offline'')
   \<and> fst (deleteSession remote_world ''u1'' ''sess_a'' clock0 (Inl (Error ''offline''))) = Inr False
   \<and> fst (clearHistory remote_world ''sess_a'' clock0 (Inl (Error ''offline''))) = Inr False
   \<and> isGuestMode (sm guest_world)
   \<and> fst (deleteSession guest_world ''u1'' ''sess_a'' clock0 (Inl (Error ''offline''))) = Inr True
   \<and> Map_has (sessions (sm remote_world)) ''sess_a''
   \<and> getSession remote_world ''sess_a'' (Inl (Error ''offline'')) = (Inr (Some session_a), remote_world)
   \<and> \<not> Map_has (sessions (sm remote_world)) ''sess_b''
   \<and> fst (getSession remote_world ''sess_b'' (Inl (Error ''offline''))) = Inr None
   \<and> fst (getMessages remote_world ''u1'' ''sess_a'' (Inl (Error ''offline'')))
       = Inr [JObj [(''content'', JStr ''hi''), (''type'', JStr ''USER'')]]
   \<and> fst (getMessages remote_world ''u1'' ''sess_b'' (Inl (Error ''offline''))) = Inr []"
proof -
  have r: "\<not> isGuestMode (sm remote_world)" by (simp add: remote_world_def)
  have g: "isGuestMode (sm guest_world)" by (simp add: guest_world_def)
  have ha: "Map_has (sessions (sm remote_world)) ''sess_a''"
    by (simp add: remote_world_def Map_has_def)
  have hb: "\<not> Map_has (sessions (sm remote_world)) ''sess_b''"
    by (simp add: remote_world_def Map_has_def)
  have ga: "Map_get (sessions (sm remote_world)) ''sess_a'' = Some session_a"
    by (simp add: remote_world_def Map_get_def)
  have ma: "messages session_a = Some [JObj [(''content'', JStr ''hi''), (''type'', JStr ''USER'')]]"
    by (simp add: session_a_def)
  have gb: "(case Map_get (sessions (sm remote_world)) ''sess_b'' of None \<Rightarrow> None
             | Some t \<Rightarrow> messages t) = None"
    by (simp add: remote_world_def Map_get_def)
  note a = write_failures_signalled_in_remote_mode
             [of remote_world "''u1''" clock0 "''0.4fzyo82mvyr''" "Error ''offline''" session_b
                 "''sess_a''" "Inl (Error ''offline'')" "Inl (Error ''offline'')" False
                 "Inl (Error ''offline'')" "Inl (Error ''offline'')" "Inl (Error ''offline'')"]
  note b = write_failures_signalled_in_remote_mode
             [of remote_world "''u1''" clock0 "''0.4fzyo82mvyr''" "Error ''offline''" session_b
                 "''sess_b''" "Inl (Error ''offline'')" "Inl (Error ''offline'')" False
                 "Inl (Error ''offline'')" "Inl (Error ''offline'')" "Inl (Error ''offline'')"]
  note c = write_failures_signalled_in_remote_mode
             [of guest_world "''u1''" clock0 "''0.4fzyo82mvyr''" "Error ''offline''" session_b
                 "''sess_a''" "Inl (Error ''offline'')" "Inl (Error ''offline'')" True
                 "Inl (Error ''offline'')" "Inl (Error ''offline'')" "Inl (Error ''offline'')"]
  from a r have 1: "fst (createSession remote_world ''u1'' clock0 ''0.4fzyo82mvyr'' (Inl (Error ''offline'')))
       = Inl (Error ''offline'')"
    "fst (deleteSession remote_world ''u1'' ''sess_a'' clock0 (Inl (Error ''offline''))) = Inr False"
    "fst (clearHistory remote_world ''sess_a'' clock0 (Inl (Error ''offline''))) = Inr False"
    by blast+
  from c g have 2: "fst (deleteSession guest_world ''u1'' ''sess_a'' clock0 (Inl (Error ''offline''))) = Inr True"
    by blast
  from a ha have "getSession remote_world ''sess_a'' (Inl (Error ''offline''))
      = (Inr (Map_get (sessions (sm remote_world)) ''sess_a''), remote_world)" by blast
  with ga have 3: "getSession remote_world ''sess_a'' (Inl (Error ''offline''))
      = (Inr (Some session_a), remote_world)" by simp
  from b hb have 4: "fst (getSession remote_world ''sess_b'' (Inl (Error ''offline''))) = Inr None"
    by blast
  from a ga ma have "getMessages remote_world ''u1'' ''sess_a'' (Inl (Error ''offline''))
      = (Inr [JObj [(''content'', JStr ''hi''), (''type'', JStr ''USER'')]], remote_world)" by blast
  then have 5: "fst (getMessages remote_world ''u1'' ''sess_a'' (Inl (Error ''offline'')))
       = Inr [JObj [(''content'', JStr ''hi''), (''type'', JStr ''USER'')]]" by simp
  from b gb have 6: "fst (getMessages remote_world ''u1'' ''sess_b'' (Inl (Error ''offline''))) = Inr []"
    by blast
  from r g ha hb 1 2 3 4 5 6 show ?thesis by blast
qed

lemma setItem_no_quota:
  "setItem \<lparr>items = [], quota = 0\<rparr> ''guestSessions'' v = Inl QuotaExceededError"
  by (simp add: setItem_def storage_used_def)

text \<open>
  Claim C7 as stated lets no failed create pass as a success. In guest mode, on a
  storage that accepts nothing, \<open>createSession\<close> returns a session and the manager lists
  it, but nothing has been stored: a manager initialised afresh from the same storage
  finds no session.
\<close>

theorem guest_create_not_persisted_counterexample:
  "\<not> isl (fst (createSession guest_world_full ''u1'' clock0 ''0.4fzyo82mvyr'' (Inl (Error ''unused''))))
   \<and> length (getAllSessions (snd (createSession guest_world_full ''u1'' clock0 ''0.4fzyo82mvyr''
                                    (Inl (Error ''unused''))))) = 1
   \<and> localStorage (snd (createSession guest_world_full ''u1'' clock0 ''0.4fzyo82mvyr''
                           (Inl (Error ''unused''))))
       = \<lparr>items = [], quota = 0\<rparr>
   \<and> fst (initialize
            \<lparr>sm = SessionManager, api = APIService,
             localStorage = localStorage (snd (createSession guest_world_full ''u1'' clock0
                                                 ''0.4fzyo82mvyr'' (Inl (Error ''unused''))))\<rparr>
            ''u1'' True (Inl (Error ''unused'')))
       = Inr []"
proof -
  let ?c = "createSession guest_world_full ''u1'' clock0 ''0.4fzyo82mvyr'' (Inl (Error ''unused''))"
  have 1: "\<not> isl (fst ?c)"
    by (simp add: createSession_def guest_world_full_def Let_def)
  have 2: "length (getAllSessions (snd ?c)) = 1"
    by (simp add: createSession_def guest_world_full_def Let_def getAllSessions_def Map_values_def)
  have 3: "localStorage (snd ?c) = \<lparr>items = [], quota = 0\<rparr>"
    by (simp add: createSession_def guest_world_full_def Let_def saveGuestSessions_def
                  with_sessions_def setItem_no_quota del: stringify.simps)
  have 4: "fst (initialize \<lparr>sm = SessionManager, api = APIService, localStorage = localStorage (snd ?c)\<rparr>
            ''u1'' True (Inl (Error ''unused''))) = Inr []"
    unfolding 3 by (simp add: initialize_def loadGuestSessions_def getItem_def Let_def)
  from 1 2 3 4 show ?thesis by blast
qed

text \<open>
  What \<open>refreshSessions\<close> does when its request fails in remote mode:
  \<open>APIService.getUserSessions\<close> has already swallowed the error and answered \<open>[]\<close>, so the
  local map is emptied and \<open>[]\<close> is returned.
\<close>

lemma refreshSessions_failed_request:
  "\<not> isGuestMode (sm w) \<Longrightarrow>
   fst (refreshSessions w uid (Inl e)) = Inr []
   \<and> sessions (sm (snd (refreshSessions w uid (Inl e)))) = []"
  by (simp add: refreshSessions_def api_getUserSessions_def request_def set_all_def)








lemma sessions_ok_empty [simp]: "sessions_ok []"
  by (simp add: sessions_ok_def Map_ok_def)
















lemma length_escape_char_le: "length (escape_char c) \<le> 6"
  by (simp add: escape_char_def Let_def)

lemma length_quote_le: "length (quote s) \<le> 6 * length s + 2"
proof -
  have "length (concat (map escape_char s)) \<le> 6 * length s"
  proof (induction s)
    case Nil
    then show ?case by simp
  next
    case (Cons c s)
    with length_escape_char_le [of c] show ?case by simp
  qed
  then show ?thesis by (simp add: quote_def)
qed





end
